theory Spec2Isabelle
  imports Main "HOL-Library.Word"
begin

section \<open>Data\<close>

text \<open>
  Python \<open>bytes\<close> are lists of 8-bit words. Python \<open>str\<close> is a sequence of Unicode code
  points, which do not fit Isabelle's 8-bit \<open>char\<close>: text is a list of code points
  (\<open>nat\<close>), and \<open>lit\<close> embeds the ASCII literals of the source.
\<close>

type_synonym byte = "8 word"
type_synonym bytes = "byte list"
type_synonym str = "nat list"

definition lit :: "string \<Rightarrow> str" where
  "lit s = map of_char s"

definition blit :: "string \<Rightarrow> bytes" where
  "blit s = map of_char s"

text \<open>
  The exception classes that reach the code under study. \<open>StreamingError\<close> and
  \<open>APIError\<close> are the classes of \<open>src/errors.py\<close> (with the literal part of the message);
  the others are Python's own.
\<close>

datatype error =
    APIError string
  | StreamingError string
  | InvalidImageError string
  | TypeError
  | KeyError
  | AttributeError
  | UnicodeDecodeError

text \<open>
  The values \<open>json.loads\<close> produces (\<open>None\<close>, \<open>bool\<close>, numbers, \<open>str\<close>, \<open>list\<close>,
  \<open>dict\<close>), and \<open>bytes\<close>, which \<open>_decode_video_data\<close> also accepts. A float is kept as
  its lexeme: the code only ever tests the type of a number. A \<open>dict\<close> is an association
  list read with \<open>map_of\<close>, its keys in insertion order.
\<close>

datatype pyval =
    VNone
  | VBool bool
  | VInt int
  | VFloat str
  | VStr str
  | VBytes bytes
  | VList "pyval list"
  | VDict "(str \<times> pyval) list"

section \<open>Text primitives\<close>

fun starts_with :: "'a list \<Rightarrow> 'a list \<Rightarrow> bool" where
  "starts_with [] s = True"
| "starts_with (p # ps) [] = False"
| "starts_with (p # ps) (c # cs) = (p = c \<and> starts_with ps cs)"

text \<open>\<open>pat in s\<close> on strings: \<open>pat\<close> occurs as a contiguous slice.\<close>

fun contains :: "'a list \<Rightarrow> 'a list \<Rightarrow> bool" where
  "contains pat [] = (pat = [])"
| "contains pat (c # cs) = (starts_with pat (c # cs) \<or> contains pat cs)"

text \<open>
  \<open>str.isspace\<close> on a single code point, the set \<open>str.strip()\<close> removes: the ASCII
  controls 9-13 and 28-31, the space, and the Unicode separators.
\<close>

definition is_space :: "nat \<Rightarrow> bool" where
  "is_space c = ((9 \<le> c \<and> c \<le> 13) \<or> (28 \<le> c \<and> c \<le> 32) \<or> c = 133 \<or> c = 160
     \<or> c = 5760 \<or> (8192 \<le> c \<and> c \<le> 8202) \<or> c = 8232 \<or> c = 8233 \<or> c = 8239
     \<or> c = 8287 \<or> c = 12288)"

definition strip :: "str \<Rightarrow> str" where
  "strip s = rev (dropWhile is_space (rev (dropWhile is_space s)))"

text \<open>\<open>s.split("\n")\<close>: never empty; the last element is the text after the last newline.\<close>

fun split_nl :: "str \<Rightarrow> str list" where
  "split_nl [] = [[]]"
| "split_nl (c # cs) =
     (if c = 10 then [] # split_nl cs
      else (case split_nl cs of [] \<Rightarrow> [[c]] | l # ls \<Rightarrow> (c # l) # ls))"

text \<open>
  \<open>str.lower()\<close>: exact on ASCII; the Unicode lowercase mapping of the other code points
  is a table outside the source, taken as the parameter \<open>ucd\<close>.
\<close>

definition lower_cp :: "(nat \<Rightarrow> str) \<Rightarrow> nat \<Rightarrow> str" where
  "lower_cp ucd c = (if 65 \<le> c \<and> c \<le> 90 then [c + 32] else if c < 128 then [c] else ucd c)"

definition lower :: "(nat \<Rightarrow> str) \<Rightarrow> str \<Rightarrow> str" where
  "lower ucd s = concat (map (lower_cp ucd) s)"

section \<open>Standard-library codecs\<close>

subsection \<open>Base64\<close>

text \<open>The standard alphabet: index of a character, and character of an index.\<close>

definition b64_index :: "nat \<Rightarrow> nat option" where
  "b64_index c =
     (if 65 \<le> c \<and> c \<le> 90 then Some (c - 65)
      else if 97 \<le> c \<and> c \<le> 122 then Some (c - 71)
      else if 48 \<le> c \<and> c \<le> 57 then Some (c + 4)
      else if c = 43 then Some 62
      else if c = 47 then Some 63
      else None)"

definition b64_char :: "nat \<Rightarrow> nat" where
  "b64_char i =
     (if i < 26 then 65 + i
      else if i < 52 then 71 + i
      else if i < 62 then i - 4
      else if i = 62 then 43
      else 47)"

text \<open>
  \<open>base64.b64encode\<close>, followed by the \<open>.decode('utf-8')\<close> of \<open>encode_image_to_base64\<close>:
  the output is ASCII, so its code points are its bytes.
\<close>

fun b64encode :: "bytes \<Rightarrow> str" where
  "b64encode [] = []"
| "b64encode [a] =
     [b64_char (unat a div 4), b64_char (unat a mod 4 * 16), 61, 61]"
| "b64encode [a, b] =
     [b64_char (unat a div 4), b64_char (unat a mod 4 * 16 + unat b div 16),
      b64_char (unat b mod 16 * 4), 61]"
| "b64encode (a # b # c # rest) =
     [b64_char (unat a div 4), b64_char (unat a mod 4 * 16 + unat b div 16),
      b64_char (unat b mod 16 * 4 + unat c div 64), b64_char (unat c mod 64)]
     @ b64encode rest"

text \<open>
  \<open>binascii.a2b_base64\<close> in its default, non-strict mode, which \<open>base64.b64decode(s)\<close>
  calls: characters outside the alphabet are skipped; \<open>quad_pos\<close> counts the sextets of
  the current group, \<open>leftchar\<close> holds its pending bits, \<open>pads\<close> the padding characters
  seen since the last sextet. A padding that completes a group ends the decoding; input
  that ends inside a group is an error (\<open>None\<close>).
\<close>

fun a2b_base64 :: "str \<Rightarrow> nat \<Rightarrow> nat \<Rightarrow> nat \<Rightarrow> bytes \<Rightarrow> bytes option" where
  "a2b_base64 [] quad_pos leftchar pads out = (if quad_pos \<noteq> 0 then None else Some out)"
| "a2b_base64 (c # cs) quad_pos leftchar pads out =
     (if c = 61 then
        (if quad_pos \<ge> 2 \<and> quad_pos + (pads + 1) \<ge> 4 then Some out
         else a2b_base64 cs quad_pos leftchar (if quad_pos \<ge> 2 then pads + 1 else pads) out)
      else
        (case b64_index c of
           None \<Rightarrow> a2b_base64 cs quad_pos leftchar pads out
         | Some v \<Rightarrow>
            (if quad_pos = 0 then a2b_base64 cs 1 v 0 out
             else if quad_pos = 1 then
               a2b_base64 cs 2 (v mod 16) 0 (out @ [of_nat (leftchar * 4 + v div 16)])
             else if quad_pos = 2 then
               a2b_base64 cs 3 (v mod 4) 0 (out @ [of_nat (leftchar * 16 + v div 4)])
             else a2b_base64 cs 0 0 0 (out @ [of_nat (leftchar * 64 + v)]))))"

text \<open>\<open>base64.b64decode(s)\<close> for a \<open>str\<close>: a non-ASCII string raises; \<open>None\<close> is any raise.\<close>

definition b64decode :: "str \<Rightarrow> bytes option" where
  "b64decode s = (if list_all (\<lambda>c. c < 128) s then a2b_base64 s 0 0 0 [] else None)"

subsection \<open>Hexadecimal\<close>

definition hexval :: "nat \<Rightarrow> nat option" where
  "hexval c =
     (if 48 \<le> c \<and> c \<le> 57 then Some (c - 48)
      else if 97 \<le> c \<and> c \<le> 102 then Some (c - 87)
      else if 65 \<le> c \<and> c \<le> 70 then Some (c - 55)
      else None)"

definition is_ascii_space :: "nat \<Rightarrow> bool" where
  "is_ascii_space c = ((9 \<le> c \<and> c \<le> 13) \<or> c = 32)"

text \<open>
  \<open>bytes.fromhex\<close>: ASCII whitespace is skipped before each pair of digits, never inside
  one; anything else raises.
\<close>

fun fromhex_loop :: "str \<Rightarrow> bytes \<Rightarrow> bytes option" where
  "fromhex_loop [] out = Some out"
| "fromhex_loop [c] out = (if is_ascii_space c then Some out else None)"
| "fromhex_loop (c # d # ds) out =
     (if is_ascii_space c then fromhex_loop (d # ds) out
      else (case hexval c of
              None \<Rightarrow> None
            | Some hi \<Rightarrow>
               (case hexval d of
                  None \<Rightarrow> None
                | Some lo \<Rightarrow> fromhex_loop ds (out @ [of_nat (hi * 16 + lo)]))))"

definition fromhex :: "str \<Rightarrow> bytes option" where
  "fromhex s = (if list_all (\<lambda>c. c < 128) s then fromhex_loop s [] else None)"

section \<open>Inline decode\<close>

text \<open>
  \<open>_decode_video_data\<close>: bytes pass through; a string is tried as base64, then as
  hexadecimal, each \<open>except Exception: pass\<close> turning a raise into the next attempt;
  everything else, and a string neither decoder accepts, is \<open>None\<close>.
\<close>

fun decode_video_data :: "pyval \<Rightarrow> bytes option" where
  "decode_video_data (VBytes b) = Some b"
| "decode_video_data (VStr s) =
     (case b64decode s of
        Some b \<Rightarrow> Some b
      | None \<Rightarrow> (case fromhex s of Some b \<Rightarrow> Some b | None \<Rightarrow> None))"
| "decode_video_data _ = None"

section \<open>The environment\<close>

text \<open>
  Two things the code calls are outside the source: \<open>json.loads\<close> (\<open>None\<close> is
  \<open>JSONDecodeError\<close>) and the network behind \<open>httpx.Client.get\<close>, which answers a URL
  with a status and a body or fails in transport.
\<close>

datatype http_result = Response nat bytes | TransportFailure

record env =
  json_loads :: "str \<Rightarrow> pyval option"
  http_get :: "str \<Rightarrow> http_result"

section \<open>URL dereference\<close>

text \<open>
  \<open>_download_video_from_url\<close>: the body on status 200, \<open>None\<close> on any other status and on
  any exception.
\<close>

definition download_video_from_url :: "env \<Rightarrow> str \<Rightarrow> bytes option" where
  "download_video_from_url env url =
     (case http_get env url of
        Response status body \<Rightarrow> (if status = 200 then Some body else None)
      | TransportFailure \<Rightarrow> None)"

section \<open>URL extraction\<close>

text \<open>
  The regular expression \<^verbatim>\<open><video[^>]+src=['"]([^'"]+)['"]\<close> under \<open>re.search\<close>.
  \<open>quoted_src\<close> matches its tail \<^verbatim>\<open>src=['"]([^'"]+)['"]\<close> at the head of the text and
  returns group 1: the group is greedy and cannot contain a quote, so it is the longest
  quote-free run, which must be non-empty and followed by a quote.
\<close>

definition is_quote :: "nat \<Rightarrow> bool" where
  "is_quote c = (c = 39 \<or> c = 34)"

definition quoted_src :: "str \<Rightarrow> str option" where
  "quoted_src t =
     (if starts_with (lit ''src='') t then
        (case drop 4 t of
           [] \<Rightarrow> None
         | q # r \<Rightarrow>
            (if is_quote q then
               (let g = takeWhile (\<lambda>c. \<not> is_quote c) r;
                    rest = dropWhile (\<lambda>c. \<not> is_quote c) r
                in if g \<noteq> [] \<and> rest \<noteq> [] then Some g else None)
             else None))
      else None)"

text \<open>
  \<^verbatim>\<open>[^>]+\<close> is greedy: after \<^verbatim>\<open><video\<close> it first takes the whole run of characters other
  than \<^verbatim>\<open>>\<close> and backtracks one character at a time, down to one character.
\<close>

fun backtrack :: "str \<Rightarrow> nat \<Rightarrow> str option" where
  "backtrack r 0 = None"
| "backtrack r (Suc k) =
     (case quoted_src (drop (Suc k) r) of Some u \<Rightarrow> Some u | None \<Rightarrow> backtrack r k)"

definition match_at :: "str \<Rightarrow> str option" where
  "match_at t =
     (if starts_with (lit ''<video'') t then
        (let r = drop 6 t in backtrack r (length (takeWhile (\<lambda>c. c \<noteq> 62) r)))
      else None)"

text \<open>\<open>re.search\<close> tries the start positions from left to right.\<close>

fun video_src_search :: "str \<Rightarrow> str option" where
  "video_src_search [] = match_at []"
| "video_src_search (c # cs) =
     (case match_at (c # cs) of Some u \<Rightarrow> Some u | None \<Rightarrow> video_src_search cs)"

text \<open>The nested function \<open>extract_url_from_html\<close>.\<close>

fun extract_url_from_html :: "pyval \<Rightarrow> str option" where
  "extract_url_from_html (VStr t) =
     (case video_src_search t of
        Some u \<Rightarrow> Some u
      | None \<Rightarrow> (if starts_with (lit ''http'') t then Some t else None))"
| "extract_url_from_html _ = None"

section \<open>Python operators on decoded values\<close>

text \<open>
  \<open>key in x\<close> for a string key: key membership in a dict, element membership in a list,
  substring test in a string, \<open>TypeError\<close> for every other type.
\<close>

fun py_in :: "str \<Rightarrow> pyval \<Rightarrow> error + bool" where
  "py_in k (VDict kvs) = Inr (k \<in> set (map fst kvs))"
| "py_in k (VList xs) = Inr (VStr k \<in> set xs)"
| "py_in k (VStr s) = Inr (contains k s)"
| "py_in k _ = Inl TypeError"

text \<open>\<open>x[key]\<close> for a string key: only a dict can be indexed by a string.\<close>

fun py_getitem :: "pyval \<Rightarrow> str \<Rightarrow> error + pyval" where
  "py_getitem (VDict kvs) k = (case map_of kvs k of Some v \<Rightarrow> Inr v | None \<Rightarrow> Inl KeyError)"
| "py_getitem _ k = Inl TypeError"

text \<open>
  \<open>for choice in x\<close>: the elements of a list, the keys of a dict, the characters of a
  string, the integers of a bytes object; the other types are not iterable.
\<close>

fun py_iter :: "pyval \<Rightarrow> error + pyval list" where
  "py_iter (VList xs) = Inr xs"
| "py_iter (VDict kvs) = Inr (map (\<lambda>kv. VStr (fst kv)) kvs)"
| "py_iter (VStr s) = Inr (map (\<lambda>c. VStr [c]) s)"
| "py_iter (VBytes b) = Inr (map (\<lambda>w. VInt (uint w)) b)"
| "py_iter _ = Inl TypeError"

section \<open>Payload extractor\<close>

definition possible_fields :: "str list" where
  "possible_fields = [lit ''video'', lit ''data'', lit ''content'', lit ''file'',
     lit ''video_data'', lit ''video_content'', lit ''binary'', lit ''base64'']"

definition url_fields :: "str list" where
  "url_fields = [lit ''url'', lit ''video_url'', lit ''download_url'', lit ''file_url'',
     lit ''uri'', lit ''content'']"

text \<open>
  \<open>_extract_video_from_json\<close> returns from inside its loops. A piece of its body either
  raises, returns a value (which may be \<open>None\<close>), or runs to its end.
\<close>

datatype outcome = Raised error | Returned "bytes option" | Fallthrough

text \<open>
  The loop \<open>for field in url_fields\<close> over an object \<open>obj\<close>: a field that is absent, or
  whose value yields no URL, is passed over; the first URL found is dereferenced and the
  result returned, whatever it is.
\<close>

fun url_loop :: "env \<Rightarrow> pyval \<Rightarrow> str list \<Rightarrow> outcome" where
  "url_loop env obj [] = Fallthrough"
| "url_loop env obj (field # others) =
     (case py_in field obj of
        Inl e \<Rightarrow> Raised e
      | Inr present \<Rightarrow>
         (if present then
            (case py_getitem obj field of
               Inl e \<Rightarrow> Raised e
             | Inr v \<Rightarrow>
                (case extract_url_from_html v of
                   None \<Rightarrow> url_loop env obj others
                 | Some url \<Rightarrow>
                    (if url \<noteq> [] then Returned (download_video_from_url env url)
                     else url_loop env obj others)))
          else url_loop env obj others))"

text \<open>
  The loop \<open>for field in possible_fields\<close>: the first field present, other than
  \<open>content\<close>, is decoded and the result returned, whatever it is.
\<close>

fun data_loop :: "pyval \<Rightarrow> str list \<Rightarrow> outcome" where
  "data_loop obj [] = Fallthrough"
| "data_loop obj (field # others) =
     (case py_in field obj of
        Inl e \<Rightarrow> Raised e
      | Inr present \<Rightarrow>
         (if present \<and> field \<noteq> lit ''content'' then
            (case py_getitem obj field of
               Inl e \<Rightarrow> Raised e
             | Inr v \<Rightarrow> Returned (decode_video_data v))
          else data_loop obj others))"

text \<open>The two loops in sequence, as they stand three times in the source.\<close>

definition search_fields :: "env \<Rightarrow> pyval \<Rightarrow> outcome" where
  "search_fields env obj =
     (case url_loop env obj url_fields of
        Fallthrough \<Rightarrow> data_loop obj possible_fields
      | r \<Rightarrow> r)"

text \<open>
  \<open>if key in choice:\<close> followed by the two loops over \<open>choice[key]\<close>, for \<open>key\<close> one of
  \<open>delta\<close> and \<open>message\<close>. Both field lists are non-empty, so \<open>choice[key]\<close> is always
  evaluated.
\<close>

definition search_sub :: "env \<Rightarrow> pyval \<Rightarrow> str \<Rightarrow> outcome" where
  "search_sub env choice key =
     (case py_in key choice of
        Inl e \<Rightarrow> Raised e
      | Inr present \<Rightarrow>
         (if present then
            (case py_getitem choice key of
               Inl e \<Rightarrow> Raised e
             | Inr sub \<Rightarrow> search_fields env sub)
          else Fallthrough))"

fun choices_loop :: "env \<Rightarrow> pyval list \<Rightarrow> outcome" where
  "choices_loop env [] = Fallthrough"
| "choices_loop env (choice # rest) =
     (case search_sub env choice (lit ''delta'') of
        Fallthrough \<Rightarrow>
         (case search_sub env choice (lit ''message'') of
            Fallthrough \<Rightarrow> choices_loop env rest
          | r \<Rightarrow> r)
      | r \<Rightarrow> r)"

definition search_choices :: "env \<Rightarrow> pyval \<Rightarrow> outcome" where
  "search_choices env data =
     (case py_in (lit ''choices'') data of
        Inl e \<Rightarrow> Raised e
      | Inr present \<Rightarrow>
         (if present then
            (case py_getitem data (lit ''choices'') of
               Inl e \<Rightarrow> Raised e
             | Inr choices \<Rightarrow>
                (case py_iter choices of
                   Inl e \<Rightarrow> Raised e
                 | Inr cs \<Rightarrow> choices_loop env cs))
          else Fallthrough))"

text \<open>The end of the function: the two top-level loops and the final \<open>return None\<close>.\<close>

definition top_level :: "env \<Rightarrow> pyval \<Rightarrow> error + bytes option" where
  "top_level env data =
     (case search_fields env data of
        Raised e \<Rightarrow> Inl e
      | Returned r \<Rightarrow> Inr r
      | Fallthrough \<Rightarrow> Inr None)"

definition extract_video_from_json :: "env \<Rightarrow> pyval \<Rightarrow> error + bytes option" where
  "extract_video_from_json env data =
     (case search_choices env data of
        Raised e \<Rightarrow> Inl e
      | Returned r \<Rightarrow> Inr r
      | Fallthrough \<Rightarrow> top_level env data)"

section \<open>Line-oriented parsers\<close>

text \<open>
  The inner loop \<open>for line in lines[:-1]\<close> of the text parsers, with the loop body as a
  parameter: the body takes a line and the chunks extracted so far and either raises or
  returns the chunks. An exception leaves the loop.
\<close>

fun for_lines :: "(str \<Rightarrow> bytes list \<Rightarrow> error + bytes list) \<Rightarrow> str list \<Rightarrow> bytes list
    \<Rightarrow> error + bytes list" where
  "for_lines body [] video_chunks = Inr video_chunks"
| "for_lines body (line # rest) video_chunks =
     (case body line video_chunks of
        Inl e \<Rightarrow> Inl e
      | Inr video_chunks' \<Rightarrow> for_lines body rest video_chunks')"

text \<open>
  The outer loop \<open>for chunk in response.iter_text()\<close>: the chunk is appended to the buffer,
  the buffer split at newlines, the last segment kept as the new buffer and the others
  processed. When the chunks are exhausted the buffer is not looked at again.
\<close>

fun for_chunks :: "(str \<Rightarrow> bytes list \<Rightarrow> error + bytes list) \<Rightarrow> str \<Rightarrow> bytes list \<Rightarrow> str list
    \<Rightarrow> error + bytes list" where
  "for_chunks body buffer video_chunks [] = Inr video_chunks"
| "for_chunks body buffer video_chunks (chunk # rest) =
     (let lines = split_nl (buffer @ chunk) in
      case for_lines body (butlast lines) video_chunks of
        Inl e \<Rightarrow> Inl e
      | Inr video_chunks' \<Rightarrow> for_chunks body (last lines) video_chunks' rest)"

fun is_dict :: "pyval \<Rightarrow> bool" where
  "is_dict (VDict kvs) = True"
| "is_dict _ = False"

text \<open>
  The loop body of \<open>_parse_sse_stream\<close>. A line that is not a \<open>data:\<close> line, the
  \<open>[DONE]\<close> sentinel and a payload that \<open>json.loads\<close> rejects leave the chunks as they
  are. \<open>if video_chunk:\<close> is false for \<open>None\<close> and for empty bytes; the warning of the
  \<open>else\<close> branch calls \<open>data.keys()\<close>, which only a dict has.
\<close>

definition sse_line :: "env \<Rightarrow> str \<Rightarrow> bytes list \<Rightarrow> error + bytes list" where
  "sse_line env raw video_chunks =
     (let line = strip raw in
      if starts_with (lit ''data:'') line then
        (let data_str = strip (drop 5 line) in
         if data_str = lit ''[DONE]'' then Inr video_chunks
         else
           (case json_loads env data_str of
              None \<Rightarrow> Inr video_chunks
            | Some data \<Rightarrow>
               (case extract_video_from_json env data of
                  Inl e \<Rightarrow> Inl e
                | Inr None \<Rightarrow> (if is_dict data then Inr video_chunks else Inl AttributeError)
                | Inr (Some video_chunk) \<Rightarrow>
                   (if video_chunk \<noteq> [] then Inr (video_chunks @ [video_chunk])
                    else if is_dict data then Inr video_chunks
                    else Inl AttributeError))))
      else Inr video_chunks)"

definition parse_sse_stream :: "env \<Rightarrow> str list \<Rightarrow> error + bytes" where
  "parse_sse_stream env chunks =
     (case for_chunks (sse_line env) [] [] chunks of
        Inl e \<Rightarrow> Inl e
      | Inr video_chunks \<Rightarrow>
         (if video_chunks = [] then Inl (StreamingError ''No video data found in SSE stream'')
          else Inr (concat video_chunks)))"

text \<open>The loop body of \<open>_parse_json_stream\<close>: every non-blank line is a JSON value.\<close>

definition json_line :: "env \<Rightarrow> str \<Rightarrow> bytes list \<Rightarrow> error + bytes list" where
  "json_line env raw video_chunks =
     (let line = strip raw in
      if line = [] then Inr video_chunks
      else
        (case json_loads env line of
           None \<Rightarrow> Inr video_chunks
         | Some data \<Rightarrow>
            (case extract_video_from_json env data of
               Inl e \<Rightarrow> Inl e
             | Inr None \<Rightarrow> Inr video_chunks
             | Inr (Some video_chunk) \<Rightarrow>
                (if video_chunk \<noteq> [] then Inr (video_chunks @ [video_chunk])
                 else Inr video_chunks))))"

definition parse_json_stream :: "env \<Rightarrow> str list \<Rightarrow> error + bytes" where
  "parse_json_stream env chunks =
     (case for_chunks (json_line env) [] [] chunks of
        Inl e \<Rightarrow> Inl e
      | Inr video_chunks \<Rightarrow>
         (if video_chunks = [] then Inl (StreamingError ''No video data found in JSON stream'')
          else Inr (concat video_chunks)))"

section \<open>Binary parser\<close>

text \<open>\<open>_parse_binary_stream\<close>: every chunk of \<open>response.iter_bytes\<close>, joined. It never raises.\<close>

definition parse_binary_stream :: "bytes list \<Rightarrow> error + bytes" where
  "parse_binary_stream chunks = Inr (concat chunks)"

section \<open>Auto-detect parser\<close>

text \<open>
  \<open>bytes.decode("utf-8")\<close>, strict: shortest forms only, no surrogates, nothing above
  U+10FFFF; \<open>None\<close> is \<open>UnicodeDecodeError\<close>.
\<close>

definition continuation :: "nat \<Rightarrow> bool" where
  "continuation b = (128 \<le> b \<and> b \<le> 191)"

fun utf8 :: "nat list \<Rightarrow> str option" where
  "utf8 [] = Some []"
| "utf8 (b0 # bs) =
     (if b0 < 128 then map_option ((#) b0) (utf8 bs)
      else if 194 \<le> b0 \<and> b0 \<le> 223 then
        (case bs of
           b1 # r \<Rightarrow>
            (if continuation b1
             then map_option ((#) ((b0 - 192) * 64 + (b1 - 128))) (utf8 r)
             else None)
         | _ \<Rightarrow> None)
      else if 224 \<le> b0 \<and> b0 \<le> 239 then
        (case bs of
           b1 # b2 # r \<Rightarrow>
            (if continuation b1 \<and> continuation b2
                \<and> \<not> (b0 = 224 \<and> b1 < 160) \<and> \<not> (b0 = 237 \<and> b1 > 159)
             then map_option ((#) ((b0 - 224) * 4096 + (b1 - 128) * 64 + (b2 - 128))) (utf8 r)
             else None)
         | _ \<Rightarrow> None)
      else if 240 \<le> b0 \<and> b0 \<le> 244 then
        (case bs of
           b1 # b2 # b3 # r \<Rightarrow>
            (if continuation b1 \<and> continuation b2 \<and> continuation b3
                \<and> \<not> (b0 = 240 \<and> b1 < 144) \<and> \<not> (b0 = 244 \<and> b1 > 143)
             then map_option
                    ((#) ((b0 - 240) * 262144 + (b1 - 128) * 4096 + (b2 - 128) * 64 + (b3 - 128)))
                    (utf8 r)
             else None)
         | _ \<Rightarrow> None)
      else None)"

definition decode_utf8 :: "bytes \<Rightarrow> str option" where
  "decode_utf8 b = utf8 (map unat b)"

definition video_signatures :: "bytes list" where
  "video_signatures =
     [[0, 0, 0, 24] @ blit ''ftypmp4'',
      [0, 0, 0, 28] @ blit ''ftypiso'',
      blit ''RIFF'',
      [26, 69, 223, 163]]"

definition is_likely_video :: "bytes \<Rightarrow> bool" where
  "is_likely_video first_chunk = list_ex (\<lambda>sig. starts_with sig first_chunk) video_signatures"

text \<open>
  The text loops of \<open>_parse_unknown_stream\<close> read the byte iterator \<open>chunks_iter\<close>, which
  the fallback reads again afterwards: the loop returns what is left of the iterator
  together with its result. A chunk that does not decode raises after it has been taken
  from the iterator.
\<close>

fun for_byte_chunks :: "(str \<Rightarrow> bytes list \<Rightarrow> error + bytes list) \<Rightarrow> str \<Rightarrow> bytes list
    \<Rightarrow> bytes list \<Rightarrow> (error + bytes list) \<times> bytes list" where
  "for_byte_chunks body buffer video_chunks [] = (Inr video_chunks, [])"
| "for_byte_chunks body buffer video_chunks (chunk # chunks_iter) =
     (case decode_utf8 chunk of
        None \<Rightarrow> (Inl UnicodeDecodeError, chunks_iter)
      | Some t \<Rightarrow>
         (let lines = split_nl (buffer @ t) in
          case for_lines body (butlast lines) video_chunks of
            Inl e \<Rightarrow> (Inl e, chunks_iter)
          | Inr video_chunks' \<Rightarrow> for_byte_chunks body (last lines) video_chunks' chunks_iter))"

text \<open>The SSE loop body of the auto-detect parser: as \<open>sse_line\<close>, without the warning.\<close>

definition unknown_sse_line :: "env \<Rightarrow> str \<Rightarrow> bytes list \<Rightarrow> error + bytes list" where
  "unknown_sse_line env raw video_chunks =
     (let line = strip raw in
      if starts_with (lit ''data:'') line then
        (let data_str = strip (drop 5 line) in
         if data_str = lit ''[DONE]'' then Inr video_chunks
         else
           (case json_loads env data_str of
              None \<Rightarrow> Inr video_chunks
            | Some data \<Rightarrow>
               (case extract_video_from_json env data of
                  Inl e \<Rightarrow> Inl e
                | Inr None \<Rightarrow> Inr video_chunks
                | Inr (Some video_chunk) \<Rightarrow>
                   (if video_chunk \<noteq> [] then Inr (video_chunks @ [video_chunk])
                    else Inr video_chunks))))
      else Inr video_chunks)"

text \<open>
  One of the two blocks \<open>if text_data.strip().startswith(prefix): ...\<close>: when the
  condition is false the block is skipped and the iterator untouched. The result is the
  list of extracted chunks.
\<close>

definition text_attempt :: "(str \<Rightarrow> bytes list \<Rightarrow> error + bytes list) \<Rightarrow> str \<Rightarrow> str \<Rightarrow> bytes list
    \<Rightarrow> (error + bytes list) \<times> bytes list" where
  "text_attempt body prefix text_data chunks_iter =
     (if starts_with prefix (strip text_data)
      then for_byte_chunks body text_data [] chunks_iter
      else (Inr [], chunks_iter))"

text \<open>The last lines of \<open>_parse_unknown_stream\<close>: the first chunk and what the iterator still holds.\<close>

definition fall_back :: "bytes \<Rightarrow> bytes list \<Rightarrow> error + bytes" where
  "fall_back first_chunk chunks_iter = Inr (concat (first_chunk # chunks_iter))"

text \<open>
  \<open>_parse_unknown_stream\<close>. \<open>except UnicodeDecodeError: pass\<close> leads to the fallback; any
  other exception leaves the function.
\<close>

definition parse_unknown_stream :: "env \<Rightarrow> bytes list \<Rightarrow> error + bytes" where
  "parse_unknown_stream env chunks =
     (case chunks of
        [] \<Rightarrow> Inl (StreamingError ''Empty response received'')
      | first_chunk # chunks_iter \<Rightarrow>
         (if is_likely_video first_chunk then Inr (concat (first_chunk # chunks_iter))
          else
            (case decode_utf8 first_chunk of
               None \<Rightarrow> fall_back first_chunk chunks_iter
             | Some text_data \<Rightarrow>
                (case text_attempt (unknown_sse_line env) (lit ''data:'') text_data chunks_iter of
                   (Inl UnicodeDecodeError, it1) \<Rightarrow> fall_back first_chunk it1
                 | (Inl e, it1) \<Rightarrow> Inl e
                 | (Inr video_chunks, it1) \<Rightarrow>
                    (if video_chunks \<noteq> [] then Inr (concat video_chunks)
                     else
                       (case text_attempt (json_line env) (lit ''{'') text_data it1 of
                          (Inl UnicodeDecodeError, it2) \<Rightarrow> fall_back first_chunk it2
                        | (Inl e, it2) \<Rightarrow> Inl e
                        | (Inr video_chunks2, it2) \<Rightarrow>
                           (if video_chunks2 \<noteq> [] then Inr (concat video_chunks2)
                            else fall_back first_chunk it2)))))))"

section \<open>Dispatch on the content type\<close>

text \<open>
  The response once its status line and headers have arrived: the status, the
  \<open>content-type\<close> header if there is one, and the body as \<open>iter_bytes\<close> and as
  \<open>iter_text\<close> deliver it. Failures of the transport while the body is read are outside
  this model, as is the \<open>content-length\<close> header, which only feeds the progress bar.
\<close>

record response =
  status_code :: nat
  content_type_header :: "str option"
  iter_bytes :: "bytes list"
  iter_text :: "str list"

text \<open>\<open>_parse_streaming_response\<close>: the first condition that holds selects the parser.\<close>

definition parse_streaming_response :: "env \<Rightarrow> response \<Rightarrow> str \<Rightarrow> error + bytes" where
  "parse_streaming_response env response content_type =
     (if contains (lit ''octet-stream'') content_type \<or> starts_with (lit ''video/'') content_type
      then parse_binary_stream (iter_bytes response)
      else if contains (lit ''text/event-stream'') content_type
      then parse_sse_stream env (iter_text response)
      else if contains (lit ''json'') content_type
      then parse_json_stream env (iter_text response)
      else parse_unknown_stream env (iter_bytes response))"

text \<open>\<open>response.headers.get("content-type", "").lower()\<close>\<close>

definition content_type_of :: "(nat \<Rightarrow> str) \<Rightarrow> response \<Rightarrow> str" where
  "content_type_of ucd response =
     lower ucd (case content_type_header response of None \<Rightarrow> [] | Some v \<Rightarrow> v)"

text \<open>
  \<open>generate_video\<close> from the moment the response is open: the status check, the dispatch,
  the check for an empty payload, and the last \<open>except\<close> clause, which lets \<open>APIError\<close>
  and \<open>StreamingError\<close> through and turns every other exception into a
  \<open>StreamingError\<close>.
\<close>

fun reraise :: "error \<Rightarrow> error" where
  "reraise (APIError m) = APIError m"
| "reraise (StreamingError m) = StreamingError m"
| "reraise e = StreamingError ''Unexpected error during video generation''"

definition generate_video :: "(nat \<Rightarrow> str) \<Rightarrow> env \<Rightarrow> response \<Rightarrow> error + bytes" where
  "generate_video ucd env response =
     (if status_code response \<ge> 400 then Inl (APIError ''API request failed'')
      else
        (case parse_streaming_response env response (content_type_of ucd response) of
           Inl e \<Rightarrow> Inl (reraise e)
         | Inr video_data \<Rightarrow>
            (if video_data = [] then Inl (StreamingError ''No video data received from API'')
             else Inr video_data)))"

section \<open>Image encoder\<close>

text \<open>
  What \<open>encode_image_to_base64\<close> sees of a path: whether the file exists, its suffix,
  the size \<open>stat\<close> reports and the content \<open>read\<close> returns. \<open>VALID_IMAGE_FORMATS\<close> and
  \<open>MAX_IMAGE_SIZE\<close> are constants of \<open>src/config.py\<close>, which is not part of the source
  at hand: they are parameters.
\<close>

record image_file =
  file_exists :: bool
  suffix :: str
  st_size :: nat
  file_content :: bytes

definition encode_image_to_base64 :: "(nat \<Rightarrow> str) \<Rightarrow> str list \<Rightarrow> nat \<Rightarrow> image_file \<Rightarrow> error + str" where
  "encode_image_to_base64 ucd valid_image_formats max_image_size image_path =
     (if \<not> file_exists image_path then Inl (InvalidImageError ''Image file not found'')
      else if lower ucd (suffix image_path) \<notin> set valid_image_formats
      then Inl (InvalidImageError ''Invalid image format'')
      else if st_size image_path > max_image_size
      then Inl (InvalidImageError ''Image file too large'')
      else Inr (b64encode (file_content image_path)))"

section \<open>The classifier of the specification\<close>

text \<open>
  The four strategies, the decision table of the specification (section 4.2) read on the
  header as the server sent it, and the parser each strategy stands for. The source has
  no such function: \<open>_parse_streaming_response\<close> tests the lowered header and calls the
  parser at once. The table is written here to be compared with it.
\<close>

datatype strategy = Binary | ServerSentEvents | NdjsonStream | Unknown

definition classifier :: "(nat \<Rightarrow> str) \<Rightarrow> str option \<Rightarrow> strategy" where
  "classifier ucd header =
     (let v = lower ucd (case header of None \<Rightarrow> [] | Some h \<Rightarrow> h) in
      if contains (lit ''octet-stream'') v \<or> starts_with (lit ''video/'') v then Binary
      else if contains (lit ''text/event-stream'') v then ServerSentEvents
      else if contains (lit ''json'') v then NdjsonStream
      else Unknown)"

fun run_strategy :: "env \<Rightarrow> response \<Rightarrow> strategy \<Rightarrow> error + bytes" where
  "run_strategy env response Binary = parse_binary_stream (iter_bytes response)"
| "run_strategy env response ServerSentEvents = parse_sse_stream env (iter_text response)"
| "run_strategy env response NdjsonStream = parse_json_stream env (iter_text response)"
| "run_strategy env response Unknown = parse_unknown_stream env (iter_bytes response)"

text \<open>A header with its ASCII letters in upper case.\<close>

definition ascii_upper :: "nat \<Rightarrow> nat" where
  "ascii_upper c = (if 97 \<le> c \<and> c \<le> 122 then c - 32 else c)"

section \<open>Malformed lines\<close>

text \<open>
  A complete line whose payload \<open>json.loads\<close> rejects: for the SSE parser a \<open>data:\<close> line
  whose payload is not the \<open>[DONE]\<close> sentinel, for the NDJSON parser any non-blank line.
\<close>

definition sse_malformed :: "env \<Rightarrow> str \<Rightarrow> bool" where
  "sse_malformed env line =
     (10 \<notin> set line \<and> starts_with (lit ''data:'') (strip line)
      \<and> strip (drop 5 (strip line)) \<noteq> lit ''[DONE]''
      \<and> json_loads env (strip (drop 5 (strip line))) = None)"

definition json_malformed :: "env \<Rightarrow> str \<Rightarrow> bool" where
  "json_malformed env line =
     (10 \<notin> set line \<and> strip line \<noteq> [] \<and> json_loads env (strip line) = None)"

section \<open>The extractor's search, as a specification\<close>

text \<open>
  What one candidate object (a dict) decides, written without the loops: the first URL
  field, in priority order, whose value yields a URL is dereferenced; failing that the
  first data field present, \<open>content\<close> excluded, is decoded. \<open>Some r\<close> is a decision with
  result \<open>r\<close>, which is \<open>None\<close> when the dereference or the decoding fails; \<open>None\<close> is no
  decision.
\<close>

fun first_url :: "(str \<times> pyval) list \<Rightarrow> str list \<Rightarrow> str option" where
  "first_url kvs [] = None"
| "first_url kvs (f # fs) =
     (case map_of kvs f of
        None \<Rightarrow> first_url kvs fs
      | Some v \<Rightarrow>
         (case extract_url_from_html v of None \<Rightarrow> first_url kvs fs | Some u \<Rightarrow> Some u))"

fun first_data :: "(str \<times> pyval) list \<Rightarrow> str list \<Rightarrow> pyval option" where
  "first_data kvs [] = None"
| "first_data kvs (f # fs) =
     (if f = lit ''content'' then first_data kvs fs
      else (case map_of kvs f of None \<Rightarrow> first_data kvs fs | Some v \<Rightarrow> Some v))"

definition decision :: "env \<Rightarrow> (str \<times> pyval) list \<Rightarrow> bytes option option" where
  "decision env kvs =
     (case first_url kvs url_fields of
        Some u \<Rightarrow> Some (download_video_from_url env u)
      | None \<Rightarrow>
         (case first_data kvs possible_fields of
            Some v \<Rightarrow> Some (decode_video_data v)
          | None \<Rightarrow> None))"

text \<open>
  The candidate objects of a well-formed event, in search order: for each entry of
  \<open>choices\<close> its \<open>delta\<close> and then its \<open>message\<close>, where present, and last the event
  itself. An event is well formed when \<open>choices\<close>, if present, is a list of dicts whose
  \<open>delta\<close> and \<open>message\<close>, if present, are dicts; otherwise there is no candidate list.
\<close>

definition sub_object :: "(str \<times> pyval) list \<Rightarrow> str \<Rightarrow> (str \<times> pyval) list list option" where
  "sub_object ckvs key =
     (case map_of ckvs key of
        None \<Rightarrow> Some []
      | Some (VDict d) \<Rightarrow> Some [d]
      | Some _ \<Rightarrow> None)"

fun entry_candidates :: "pyval \<Rightarrow> (str \<times> pyval) list list option" where
  "entry_candidates (VDict ckvs) =
     (case sub_object ckvs (lit ''delta'') of
        None \<Rightarrow> None
      | Some a \<Rightarrow>
         (case sub_object ckvs (lit ''message'') of None \<Rightarrow> None | Some b \<Rightarrow> Some (a @ b)))"
| "entry_candidates _ = None"

definition candidates :: "(str \<times> pyval) list \<Rightarrow> (str \<times> pyval) list list option" where
  "candidates kvs =
     (case map_of kvs (lit ''choices'') of
        None \<Rightarrow> Some [kvs]
      | Some (VList entries) \<Rightarrow>
         map_option (\<lambda>cs. concat cs @ [kvs]) (those (map entry_candidates entries))
      | Some _ \<Rightarrow> None)"

text \<open>The first decision of a list, and its result: \<open>None\<close> when no candidate decides.\<close>

fun first_decided :: "bytes option option list \<Rightarrow> bytes option option" where
  "first_decided [] = None"
| "first_decided (None # ds) = first_decided ds"
| "first_decided (Some r # ds) = Some r"

definition first_decision :: "bytes option option list \<Rightarrow> bytes option" where
  "first_decision ds = (case first_decided ds of None \<Rightarrow> None | Some r \<Rightarrow> r)"

definition to_outcome :: "bytes option option \<Rightarrow> outcome" where
  "to_outcome d = (case d of None \<Rightarrow> Fallthrough | Some r \<Rightarrow> Returned r)"

text \<open>
  An entry of \<open>choices\<close> that can decide nothing: a dict whose \<open>delta\<close> and \<open>message\<close>,
  where present, are dicts holding none of the URL fields and none of the data fields.
\<close>

definition barren_sub :: "(str \<times> pyval) list \<Rightarrow> str \<Rightarrow> bool" where
  "barren_sub ckvs key =
     (case map_of ckvs key of
        None \<Rightarrow> True
      | Some (VDict d) \<Rightarrow> list_all (\<lambda>f. map_of d f = None) (url_fields @ possible_fields)
      | Some _ \<Rightarrow> False)"

fun barren_choice :: "pyval \<Rightarrow> bool" where
  "barren_choice (VDict ckvs) =
     (barren_sub ckvs (lit ''delta'') \<and> barren_sub ckvs (lit ''message''))"
| "barren_choice _ = False"

section \<open>The locations of the search\<close>

text \<open>
  The search over an event of any shape, written as a list. A location is the value
  under \<open>delta\<close> or \<open>message\<close> of a \<open>choices\<close> entry, or the event itself. A location
  that is a dict decides or passes, by \<open>decision\<close>. One that is a string or a list
  passes unless it contains, as a substring or as an element, the name of a URL field
  or of a data field, in which case indexing it by that name raises \<open>TypeError\<close>; any
  other value raises \<open>TypeError\<close> at the first membership test.
\<close>

fun location_outcome :: "env \<Rightarrow> pyval \<Rightarrow> outcome" where
  "location_outcome env (VDict kvs) = to_outcome (decision env kvs)"
| "location_outcome env (VStr s) =
     (if list_ex (\<lambda>f. contains f s) (url_fields @ possible_fields) then Raised TypeError
      else Fallthrough)"
| "location_outcome env (VList xs) =
     (if list_ex (\<lambda>f. VStr f \<in> set xs) (url_fields @ possible_fields) then Raised TypeError
      else Fallthrough)"
| "location_outcome env _ = Raised TypeError"

text \<open>
  The location under \<open>key\<close> of an entry: absent from a dict entry it passes; an entry
  that is a string or a list passes unless it contains \<open>key\<close>, when indexing it raises;
  any other entry raises.
\<close>

fun sub_outcome :: "env \<Rightarrow> pyval \<Rightarrow> str \<Rightarrow> outcome" where
  "sub_outcome env (VDict ckvs) key =
     (case map_of ckvs key of None \<Rightarrow> Fallthrough | Some sub \<Rightarrow> location_outcome env sub)"
| "sub_outcome env (VStr s) key = (if contains key s then Raised TypeError else Fallthrough)"
| "sub_outcome env (VList xs) key = (if VStr key \<in> set xs then Raised TypeError else Fallthrough)"
| "sub_outcome env _ key = Raised TypeError"

definition entry_outcomes :: "env \<Rightarrow> pyval \<Rightarrow> outcome list" where
  "entry_outcomes env entry =
     [sub_outcome env entry (lit ''delta''), sub_outcome env entry (lit ''message'')]"

text \<open>
  All locations of an event, in search order. Iterating a \<open>choices\<close> value that is not
  iterable raises before any location is reached.
\<close>

definition locations :: "env \<Rightarrow> (str \<times> pyval) list \<Rightarrow> outcome list" where
  "locations env kvs =
     (case map_of kvs (lit ''choices'') of
        None \<Rightarrow> []
      | Some choices \<Rightarrow>
         (case py_iter choices of
            Inl e \<Rightarrow> [Raised e]
          | Inr entries \<Rightarrow> concat (map (entry_outcomes env) entries)))
     @ [to_outcome (decision env kvs)]"

text \<open>The first location that does not pass settles the search.\<close>

fun first_outcome :: "outcome list \<Rightarrow> outcome" where
  "first_outcome [] = Fallthrough"
| "first_outcome (Fallthrough # os) = first_outcome os"
| "first_outcome (r # os) = r"

section \<open>A sample world\<close>

text \<open>
  The worked examples below need a concrete environment. \<open>sample_json_loads\<close> lists the
  JSON texts the examples hand to \<open>json.loads\<close>, each with the value Python gives it;
  the other texts the examples parse (\<open>not-json\<close>, \<open>not json\<close>) are not JSON. The
  sample network serves one video and answers 404 for another URL; every other request
  fails in transport.
\<close>

definition sample_json_loads :: "str \<Rightarrow> pyval option" where
  "sample_json_loads =
     map_of
      [(lit ''{\"data\":\"b2s=\"}'', VDict [(lit ''data'', VStr (lit ''b2s=''))]),
       (lit ''{\"choices\":[{\"delta\":{\"video\":\"aGk=\"}}]}'',
        VDict [(lit ''choices'',
                VList [VDict [(lit ''delta'', VDict [(lit ''video'', VStr (lit ''aGk=''))])]])]),
       (lit ''{\"status\":\"queued\"}'', VDict [(lit ''status'', VStr (lit ''queued''))])]"

definition sample_http_get :: "str \<Rightarrow> http_result" where
  "sample_http_get url =
     (if url = lit ''http://cdn.example/v.mp4'' then Response 200 (blit ''VIDEO'')
      else if url = lit ''http://cdn.example/gone.mp4'' then Response 404 (blit ''Not Found'')
      else TransportFailure)"

definition sample_env :: env where
  "sample_env = \<lparr>json_loads = sample_json_loads, http_get = sample_http_get\<rparr>"

text \<open>
  A chat-completion event with prose in the first entry's \<open>delta.content\<close>, a video tag
  in the second entry's \<open>message.content\<close> and an inline \<open>video\<close> at the top level.
\<close>

definition video_tag :: str where
  "video_tag = lit ''<video src='' @ 39 # lit ''http://cdn.example/v.mp4'' @ 39 # lit ''>''"

definition sample_event :: "(str \<times> pyval) list" where
  "sample_event =
     [(lit ''choices'',
       VList [VDict [(lit ''delta'', VDict [(lit ''content'', VStr (lit ''rendering''))])],
              VDict [(lit ''message'', VDict [(lit ''content'', VStr video_tag)])]]),
      (lit ''video'', VStr (lit ''aGk=''))]"

text \<open>
  An event whose only entry has an empty \<open>delta\<close> and \<open>message: null\<close>, beside a live
  top-level \<open>url\<close>; and an event whose second candidate carries a live \<open>url\<close> and an
  inline \<open>video\<close>.
\<close>

definition null_message_event :: "(str \<times> pyval) list" where
  "null_message_event =
     [(lit ''choices'', VList [VDict [(lit ''delta'', VDict []), (lit ''message'', VNone)]]),
      (lit ''url'', VStr (lit ''http://cdn.example/v.mp4''))]"

definition nested_url_event :: "(str \<times> pyval) list" where
  "nested_url_event =
     [(lit ''choices'',
       VList [VDict [(lit ''delta'', VDict [(lit ''role'', VStr (lit ''assistant''))]),
                     (lit ''message'',
                      VDict [(lit ''url'', VStr (lit ''http://cdn.example/v.mp4'')),
                             (lit ''video'', VStr (lit ''b2s=''))])]])]"

text \<open>
  A response body of 8203 bytes: 315 status events of 26 bytes each and the \<open>[DONE]\<close>
  sentinel. \<open>iter_bytes(chunk_size=8192)\<close> delivers it as a first chunk of 8192 bytes,
  which ends inside the last line, and a second chunk of 11 bytes.
\<close>

definition queued_line :: str where
  "queued_line = lit ''data: {\"status\":\"queued\"}''"

definition queued_event :: bytes where
  "queued_event = blit ''data: {\"status\":\"queued\"}'' @ [10]"

definition stalled_first :: bytes where
  "stalled_first = concat (replicate 315 queued_event) @ blit ''da''"

definition stalled_second :: bytes where
  "stalled_second = blit ''ta: [DONE]'' @ [10]"

section \<open>Evaluation\<close>

text \<open>The defining equations that the simplifier unfolds to run the model on concrete inputs.\<close>

lemmas evals =
  lit_def blit_def strip_def is_space_def lower_def lower_cp_def
  b64decode_def b64_index_def b64_char_def fromhex_def hexval_def is_ascii_space_def
  download_video_from_url_def is_quote_def quoted_src_def match_at_def
  url_fields_def possible_fields_def search_fields_def search_sub_def search_choices_def
  top_level_def extract_video_from_json_def
  sse_line_def json_line_def unknown_sse_line_def
  parse_sse_stream_def parse_json_stream_def parse_binary_stream_def
  continuation_def decode_utf8_def video_signatures_def is_likely_video_def
  text_attempt_def fall_back_def parse_unknown_stream_def
  parse_streaming_response_def content_type_of_def generate_video_def
  encode_image_to_base64_def
  sample_json_loads_def sample_http_get_def sample_env_def

section \<open>Base64: decoding undoes encoding\<close>

lemma b64_index_char: "i < 64 \<Longrightarrow> b64_index (b64_char i) = Some i"
  by (auto simp: b64_index_def b64_char_def)

lemma b64_char_not_pad: "i < 64 \<Longrightarrow> b64_char i \<noteq> 61"
  by (auto simp: b64_char_def)

lemma b64_char_ascii: "i < 64 \<Longrightarrow> b64_char i < 128"
  by (auto simp: b64_char_def)

lemma unat_byte_lt: "unat (a :: byte) < 256"
  using unsigned_less [of a] by simp

text \<open>One step of the decoder on a character of the alphabet, for each position in the group.\<close>

lemma a2b_sextet:
  assumes "v < 64"
  shows "a2b_base64 (b64_char v # cs) 0 l p out = a2b_base64 cs 1 v 0 out"
    and "a2b_base64 (b64_char v # cs) 1 l p out =
          a2b_base64 cs 2 (v mod 16) 0 (out @ [of_nat (l * 4 + v div 16)])"
    and "a2b_base64 (b64_char v # cs) 2 l p out =
          a2b_base64 cs 3 (v mod 4) 0 (out @ [of_nat (l * 16 + v div 4)])"
    and "a2b_base64 (b64_char v # cs) 3 l p out =
          a2b_base64 cs 0 0 0 (out @ [of_nat (l * 64 + v)])"
  using assms by (simp_all add: b64_index_char b64_char_not_pad)

text \<open>The padding of a final group of one byte (two characters) and of two bytes (one).\<close>

lemma a2b_pad:
  shows "a2b_base64 (61 # cs) 2 l 0 out = a2b_base64 cs 2 l 1 out"
    and "a2b_base64 (61 # cs) 2 l 1 out = Some out"
    and "a2b_base64 (61 # cs) 3 l 0 out = Some out"
  by simp_all

lemma sextets_lt:
  fixes a b c :: nat
  assumes "a < 256" "b < 256" "c < 256"
  shows "a div 4 < 64" "a mod 4 * 16 + b div 16 < 64" "b mod 16 * 4 + c div 64 < 64"
    "c mod 64 < 64" "a mod 4 * 16 < 64" "b mod 16 * 4 < 64"
  using assms by simp_all

lemma div_mod_digits:
  fixes x k n :: nat
  assumes "x < n"
  shows "(k * n + x) div n = k" and "(k * n + x) mod n = x"
  using assms by simp_all

text \<open>The sextets of a group recombine into its bytes.\<close>

lemma regroup:
  fixes a b c :: nat
  assumes b: "b < 256" and c: "c < 256"
  shows "a div 4 * 4 + (a mod 4 * 16 + b div 16) div 16 = a"
    and "(a mod 4 * 16 + b div 16) mod 16 * 16 + (b mod 16 * 4 + c div 64) div 4 = b"
    and "(b mod 16 * 4 + c div 64) mod 4 * 64 + c mod 64 = c"
    and "a div 4 * 4 + (a mod 4 * 16) div 16 = a"
    and "(a mod 4 * 16 + b div 16) mod 16 * 16 + (b mod 16 * 4) div 4 = b"
proof -
  have b16: "b div 16 < 16" using b by (simp add: less_mult_imp_div_less)
  have c64: "c div 64 < 4" using c by (simp add: less_mult_imp_div_less)
  show "a div 4 * 4 + (a mod 4 * 16 + b div 16) div 16 = a"
    by (simp only: div_mod_digits(1) [OF b16] div_mult_mod_eq)
  show "(a mod 4 * 16 + b div 16) mod 16 * 16 + (b mod 16 * 4 + c div 64) div 4 = b"
    by (simp only: div_mod_digits(1) [OF c64] div_mod_digits(2) [OF b16] div_mult_mod_eq)
  show "(b mod 16 * 4 + c div 64) mod 4 * 64 + c mod 64 = c"
    by (simp only: div_mod_digits(2) [OF c64] div_mult_mod_eq)
  show "a div 4 * 4 + (a mod 4 * 16) div 16 = a"
    by simp
  show "(a mod 4 * 16 + b div 16) mod 16 * 16 + (b mod 16 * 4) div 4 = b"
  proof -
    have "(b mod 16 * 4) div 4 = b mod 16" by simp
    then show ?thesis
      by (simp only: div_mod_digits(2) [OF b16] div_mult_mod_eq)
  qed
qed

lemma a2b_b64encode: "a2b_base64 (b64encode bs) 0 l p out = Some (out @ bs)"
proof (induction bs arbitrary: l p out rule: b64encode.induct)
  case 1
  show ?case by simp
next
  case (2 a)
  have a: "unat a < 256" by (rule unat_byte_lt)
  note s = sextets_lt [OF a a a]
  have "a2b_base64 (b64encode [a]) 0 l p out =
     Some (out @ [of_nat (unat a div 4 * 4 + (unat a mod 4 * 16) div 16)])"
    by (simp only: b64encode.simps a2b_sextet(1) [OF s(1)] a2b_sextet(2) [OF s(5)] a2b_pad)
  then show ?case by (simp only: regroup(4) [OF a a]) simp
next
  case (3 a b)
  have a: "unat a < 256" and b: "unat b < 256" by (rule unat_byte_lt)+
  note s = sextets_lt [OF a b b]
  have "a2b_base64 (b64encode [a, b]) 0 l p out =
     Some ((out @ [of_nat (unat a div 4 * 4 + (unat a mod 4 * 16 + unat b div 16) div 16)])
       @ [of_nat ((unat a mod 4 * 16 + unat b div 16) mod 16 * 16 + (unat b mod 16 * 4) div 4)])"
    by (simp only: b64encode.simps a2b_sextet(1) [OF s(1)] a2b_sextet(2) [OF s(2)]
        a2b_sextet(3) [OF s(6)] a2b_pad)
  then show ?case by (simp only: regroup(1,5) [OF b b]) simp
next
  case (4 a b c rest)
  have a: "unat a < 256" and b: "unat b < 256" and c: "unat c < 256"
    by (rule unat_byte_lt)+
  note s = sextets_lt [OF a b c]
  have "a2b_base64 (b64encode (a # b # c # rest)) 0 l p out =
     a2b_base64 (b64encode rest) 0 0 0
      (((out @ [of_nat (unat a div 4 * 4 + (unat a mod 4 * 16 + unat b div 16) div 16)])
       @ [of_nat ((unat a mod 4 * 16 + unat b div 16) mod 16 * 16
             + (unat b mod 16 * 4 + unat c div 64) div 4)])
       @ [of_nat ((unat b mod 16 * 4 + unat c div 64) mod 4 * 64 + unat c mod 64)])"
    by (simp only: b64encode.simps append.simps a2b_sextet(1) [OF s(1)] a2b_sextet(2) [OF s(2)]
        a2b_sextet(3) [OF s(3)] a2b_sextet(4) [OF s(4)])
  then show ?case by (simp only: regroup(1,2,3) [OF b c] "4.IH") simp
qed

lemma b64encode_ascii: "list_all (\<lambda>c. c < 128) (b64encode bs)"
proof (induction bs rule: b64encode.induct)
  case 1
  show ?case by simp
next
  case (2 a)
  have a: "unat a < 256" by (rule unat_byte_lt)
  note s = sextets_lt [OF a a a]
  show ?case by (simp add: b64_char_ascii [OF s(1)] b64_char_ascii [OF s(5)])
next
  case (3 a b)
  have a: "unat a < 256" and b: "unat b < 256" by (rule unat_byte_lt)+
  note s = sextets_lt [OF a b b]
  show ?case
    by (simp add: b64_char_ascii [OF s(1)] b64_char_ascii [OF s(2)] b64_char_ascii [OF s(6)])
next
  case (4 a b c rest)
  have a: "unat a < 256" and b: "unat b < 256" and c: "unat c < 256"
    by (rule unat_byte_lt)+
  note s = sextets_lt [OF a b c]
  show ?case
    using 4
    by (simp add: b64_char_ascii [OF s(1)] b64_char_ascii [OF s(2)] b64_char_ascii [OF s(3)]
        b64_char_ascii [OF s(4)])
qed

lemma b64decode_b64encode: "b64decode (b64encode bs) = Some bs"
  by (simp add: b64decode_def b64encode_ascii a2b_b64encode)

section \<open>Inline decode\<close>

text \<open>
  C7. \<open>_decode_video_data\<close> returns bytes unchanged; for a string it returns the base64
  decoding whenever \<open>b64decode\<close> accepts the string (also when the string is valid
  hexadecimal too), otherwise the hexadecimal decoding when \<open>fromhex\<close> accepts it,
  otherwise \<open>None\<close>; every other type of value yields \<open>None\<close>.
\<close>

theorem decode_video_data_order:
  "decode_video_data (VBytes b) = Some b
   \<and> decode_video_data (VStr s) =
       (case b64decode s of Some r \<Rightarrow> Some r | None \<Rightarrow> fromhex s)
   \<and> decode_video_data VNone = None
   \<and> decode_video_data (VBool t) = None
   \<and> decode_video_data (VInt i) = None
   \<and> decode_video_data (VFloat f) = None
   \<and> decode_video_data (VList xs) = None
   \<and> decode_video_data (VDict kvs) = None"
  by (simp split: option.split)

text \<open>
  The order at work: \<open>deadbeef\<close> is valid base64 and valid hexadecimal and is decoded as
  base64; \<open>ab\<close> is valid hexadecimal only and is decoded as hexadecimal; \<open>zz\<close> is neither.
\<close>

theorem decode_video_data_order_witness:
  "decode_video_data (VBytes (blit ''hi'')) = Some (blit ''hi'')
   \<and> fromhex (lit ''deadbeef'') = Some [222, 173, 190, 239]
   \<and> decode_video_data (VStr (lit ''deadbeef'')) = Some [117, 230, 157, 109, 231, 159]
   \<and> b64decode (lit ''ab'') = None
   \<and> decode_video_data (VStr (lit ''ab'')) = Some [171]
   \<and> decode_video_data (VStr (lit ''zz'')) = None"
  using decode_video_data_order [of "blit ''hi''" "lit ''deadbeef''"]
    decode_video_data_order [of "[]" "lit ''ab''"]
    decode_video_data_order [of "[]" "lit ''zz''"]
  by (simp add: evals)

section \<open>Round trip through the image encoder\<close>

text \<open>
  C8. Encoding bytes with \<open>b64encode\<close>, the step \<open>encode_image_to_base64\<close> applies to the
  content of the image file, and decoding the resulting string with
  \<open>_decode_video_data\<close> gives the bytes back: directly, and for whatever string
  \<open>encode_image_to_base64\<close> returns for a file.
\<close>

theorem base64_round_trip:
  "decode_video_data (VStr (b64encode image_data)) = Some image_data
   \<and> (encode_image_to_base64 ucd valid_image_formats max_image_size image_path = Inr encoded
        \<longrightarrow> decode_video_data (VStr encoded) = Some (file_content image_path))"
  by (auto simp: b64decode_b64encode encode_image_to_base64_def split: if_splits)

theorem base64_round_trip_witness:
  "encode_image_to_base64 (\<lambda>c. [c]) [lit ''.jpg'', lit ''.png''] 10485760
      \<lparr>file_exists = True, suffix = lit ''.JPG'', st_size = 2, file_content = blit ''hi''\<rparr>
     = Inr (lit ''aGk='')
   \<and> decode_video_data (VStr (lit ''aGk='')) = Some (blit ''hi'')"
  using base64_round_trip [of "blit ''hi''" "\<lambda>c. [c]" "[lit ''.jpg'', lit ''.png'']" 10485760
      "\<lparr>file_exists = True, suffix = lit ''.JPG'', st_size = 2, file_content = blit ''hi''\<rparr>"
      "lit ''aGk=''"]
  by (simp add: evals)

section \<open>Dispatch\<close>

lemma lower_ascii_upper: "lower ucd (map ascii_upper h) = lower ucd h"
proof -
  have "lower_cp ucd (ascii_upper c) = lower_cp ucd c" for c
    by (auto simp: lower_cp_def ascii_upper_def)
  then show ?thesis by (simp add: lower_def comp_def)
qed

text \<open>The if-chain of \<open>_parse_streaming_response\<close> runs the parser the table selects.\<close>

lemma dispatch_runs_classifier:
  "parse_streaming_response env r (content_type_of ucd r) =
     run_strategy env r (classifier ucd (content_type_header r))"
  by (simp add: parse_streaming_response_def content_type_of_def classifier_def Let_def)

text \<open>
  C4. For every response, the parser \<open>generate_video\<close> and \<open>_parse_streaming_response\<close>
  run is the one the decision table gives for the \<open>content-type\<close> header: Binary when
  the lowered header contains \<open>octet-stream\<close> or starts with \<open>video/\<close>, else SSE when it
  contains \<open>text/event-stream\<close>, else NDJSON when it contains \<open>json\<close>, else Unknown. A
  missing header is Unknown, and the letter case of the header does not matter.
\<close>

theorem classifier_table:
  "parse_streaming_response env r (content_type_of ucd r) =
     run_strategy env r (classifier ucd (content_type_header r))
   \<and> classifier ucd header =
       (let v = lower ucd (case header of None \<Rightarrow> [] | Some h \<Rightarrow> h) in
        if contains (lit ''octet-stream'') v \<or> starts_with (lit ''video/'') v then Binary
        else if contains (lit ''text/event-stream'') v then ServerSentEvents
        else if contains (lit ''json'') v then NdjsonStream
        else Unknown)
   \<and> classifier ucd None = Unknown
   \<and> classifier ucd (Some (map ascii_upper h)) = classifier ucd (Some h)"
proof -
  have "classifier ucd None = Unknown"
    by (simp add: classifier_def lower_def lit_def)
  moreover have "classifier ucd (Some (map ascii_upper h)) = classifier ucd (Some h)"
    by (simp add: classifier_def lower_ascii_upper)
  ultimately show ?thesis
    by (simp add: dispatch_runs_classifier classifier_def)
qed

theorem classifier_table_witness:
  "classifier (\<lambda>c. [c]) (Some (lit ''Application/Octet-Stream'')) = Binary
   \<and> classifier (\<lambda>c. [c]) (Some (lit ''VIDEO/mp4'')) = Binary
   \<and> classifier (\<lambda>c. [c]) (Some (lit ''text/event-stream; charset=utf-8'')) = ServerSentEvents
   \<and> classifier (\<lambda>c. [c]) (Some (lit ''application/x-ndjson'')) = NdjsonStream
   \<and> classifier (\<lambda>c. [c]) (Some (lit ''text/plain'')) = Unknown
   \<and> classifier (\<lambda>c. [c]) (Some (lit ''application/video/mp4'')) = Unknown
   \<and> classifier (\<lambda>c. [c]) None = Unknown
   \<and> parse_streaming_response sample_env
        \<lparr>status_code = 200, content_type_header = Some (lit ''Video/MP4''),
         iter_bytes = [blit ''AB'', blit ''CD''], iter_text = []\<rparr>
        (lit ''video/mp4'') = Inr (blit ''ABCD'')"
  using classifier_table [of sample_env
      "\<lparr>status_code = 200, content_type_header = Some (lit ''Video/MP4''),
         iter_bytes = [blit ''AB'', blit ''CD''], iter_text = []\<rparr>"
      "\<lambda>c. [c]" "Some (lit ''Application/Octet-Stream'')" "lit ''video/mp4''"]
  by (simp add: evals classifier_def)

section \<open>Binary streams\<close>

text \<open>
  C3. The binary parser returns the concatenation of the byte chunks in arrival order,
  and so does the dispatch for a response the table classifies as Binary. When such a
  response (with a status below 400) delivers no chunk, \<open>generate_video\<close> fails with a
  \<open>StreamingError\<close>, raised by its check for an empty payload; when the chunks hold at
  least one byte it returns their concatenation.
\<close>

theorem binary_stream_concat:
  "parse_binary_stream chunks = Inr (concat chunks)
   \<and> (classifier ucd (content_type_header r) = Binary \<longrightarrow>
        parse_streaming_response env r (content_type_of ucd r) = Inr (concat (iter_bytes r)))
   \<and> (classifier ucd (content_type_header r) = Binary \<and> status_code r < 400
        \<and> iter_bytes r = [] \<longrightarrow>
        generate_video ucd env r = Inl (StreamingError ''No video data received from API''))
   \<and> (classifier ucd (content_type_header r) = Binary \<and> status_code r < 400
        \<and> concat (iter_bytes r) \<noteq> [] \<longrightarrow>
        generate_video ucd env r = Inr (concat (iter_bytes r)))"
  by (simp add: generate_video_def dispatch_runs_classifier parse_binary_stream_def)

theorem binary_stream_concat_witness:
  "parse_binary_stream [blit ''AB'', blit ''CD''] = Inr (blit ''ABCD'')
   \<and> classifier (\<lambda>c. [c]) (Some (lit ''application/octet-stream'')) = Binary
   \<and> generate_video (\<lambda>c. [c]) sample_env
        \<lparr>status_code = 200, content_type_header = Some (lit ''application/octet-stream''),
         iter_bytes = [], iter_text = []\<rparr>
       = Inl (StreamingError ''No video data received from API'')
   \<and> generate_video (\<lambda>c. [c]) sample_env
        \<lparr>status_code = 200, content_type_header = Some (lit ''application/octet-stream''),
         iter_bytes = [blit ''AB'', blit ''CD''], iter_text = []\<rparr>
       = Inr (blit ''ABCD'')"
  using binary_stream_concat [of "[blit ''AB'', blit ''CD'']" "\<lambda>c. [c]"
      "\<lparr>status_code = 200, content_type_header = Some (lit ''application/octet-stream''),
         iter_bytes = [], iter_text = []\<rparr>" sample_env]
    binary_stream_concat [of "[blit ''AB'', blit ''CD'']" "\<lambda>c. [c]"
      "\<lparr>status_code = 200, content_type_header = Some (lit ''application/octet-stream''),
         iter_bytes = [blit ''AB'', blit ''CD''], iter_text = []\<rparr>" sample_env]
  by (simp add: evals classifier_def)

section \<open>Lines and chunks\<close>

text \<open>
  How \<open>split("\n")\<close> distributes over concatenation, and with it what the chunk loop of
  the text parsers computes: the line loop over the complete lines of the whole text, in
  order, however the text is cut into chunks. The segment after the last newline is
  never among them.
\<close>

lemma split_nl_nonempty: "split_nl t \<noteq> []"
  by (induction t) (auto split: list.splits)

lemma split_nl_no_newline: "10 \<notin> set t \<Longrightarrow> split_nl t = [t]"
  by (induction t) auto

lemma split_nl_line: "10 \<notin> set l \<Longrightarrow> split_nl (l @ 10 # t) = l # split_nl t"
  by (induction l) auto

lemma split_nl_append:
  "split_nl (x @ y) = butlast (split_nl x) @ split_nl (last (split_nl x) @ y)"
proof (induction x)
  case Nil
  show ?case by simp
next
  case (Cons c cs)
  show ?case
  proof (cases "c = 10")
    case True
    with Cons show ?thesis by (simp add: split_nl_nonempty)
  next
    case False
    obtain l ls where sp: "split_nl cs = l # ls"
      using split_nl_nonempty [of cs] by (cases "split_nl cs") auto
    show ?thesis
    proof (cases ls)
      case Nil
      with False sp Cons show ?thesis by simp
    next
      case (Cons m ms)
      with False sp Cons.IH show ?thesis by simp
    qed
  qed
qed

lemma last_split_nl_no_newline: "10 \<notin> set (last (split_nl t))"
  by (induction t) (auto simp: split_nl_nonempty split: list.splits)

lemma complete_lines_append:
  "butlast (split_nl (x @ y)) = butlast (split_nl x) @ butlast (split_nl (last (split_nl x) @ y))"
  by (subst split_nl_append) (simp add: butlast_append split_nl_nonempty)

lemma for_lines_append:
  "for_lines body (xs @ ys) v =
     (case for_lines body xs v of Inl e \<Rightarrow> Inl e | Inr v' \<Rightarrow> for_lines body ys v')"
  by (induction xs arbitrary: v) (auto split: sum.splits)

lemma for_chunks_lines:
  "10 \<notin> set buffer \<Longrightarrow>
   for_chunks body buffer v chunks = for_lines body (butlast (split_nl (buffer @ concat chunks))) v"
proof (induction chunks arbitrary: buffer v)
  case Nil
  then show ?case by (simp add: split_nl_no_newline)
next
  case (Cons chunk rest)
  have "butlast (split_nl (buffer @ concat (chunk # rest))) =
      butlast (split_nl (buffer @ chunk))
      @ butlast (split_nl (last (split_nl (buffer @ chunk)) @ concat rest))"
    using complete_lines_append [of "buffer @ chunk" "concat rest"] by simp
  then show ?case
    using Cons.IH [OF last_split_nl_no_newline]
    by (simp add: for_lines_append Let_def split: sum.splits)
qed

lemma complete_lines_tail:
  "10 \<notin> set tail \<Longrightarrow> butlast (split_nl (t @ tail)) = butlast (split_nl t)"
  using last_split_nl_no_newline [of t]
  by (simp add: complete_lines_append split_nl_no_newline)

lemma last_split_nl_boundary: "a = [] \<or> last a = 10 \<Longrightarrow> last (split_nl a) = []"
proof (cases "a = []")
  case True
  then show ?thesis by simp
next
  case False
  assume "a = [] \<or> last a = 10"
  with False have "a = butlast a @ [10]" by (metis append_butlast_last_id)
  then have "split_nl a = butlast (split_nl (butlast a)) @ split_nl (last (split_nl (butlast a)) @ [10])"
    using split_nl_append [of "butlast a" "[10]"] by simp
  then show ?thesis
    using split_nl_line [OF last_split_nl_no_newline [of "butlast a"], of "[]"] by simp
qed

lemma complete_lines_insert:
  assumes "a = [] \<or> last a = 10" and "10 \<notin> set l"
  shows "butlast (split_nl (a @ l @ 10 # b)) = butlast (split_nl a) @ l # butlast (split_nl b)"
    and "butlast (split_nl (a @ b)) = butlast (split_nl a) @ butlast (split_nl b)"
  using assms last_split_nl_boundary [of a]
  by (simp_all add: complete_lines_append split_nl_line split_nl_nonempty)

lemma parse_sse_stream_lines:
  "parse_sse_stream env chunks =
     (case for_lines (sse_line env) (butlast (split_nl (concat chunks))) [] of
        Inl e \<Rightarrow> Inl e
      | Inr video_chunks \<Rightarrow>
         (if video_chunks = [] then Inl (StreamingError ''No video data found in SSE stream'')
          else Inr (concat video_chunks)))"
  using for_chunks_lines [of "[]" "sse_line env" "[]" chunks]
  by (simp add: parse_sse_stream_def)

lemma parse_json_stream_lines:
  "parse_json_stream env chunks =
     (case for_lines (json_line env) (butlast (split_nl (concat chunks))) [] of
        Inl e \<Rightarrow> Inl e
      | Inr video_chunks \<Rightarrow>
         (if video_chunks = [] then Inl (StreamingError ''No video data found in JSON stream'')
          else Inr (concat video_chunks)))"
  using for_chunks_lines [of "[]" "json_line env" "[]" chunks]
  by (simp add: parse_json_stream_def)

lemma for_lines_skip:
  assumes "\<And>v. body l v = Inr v"
  shows "for_lines body (xs @ l # ys) v = for_lines body (xs @ ys) v"
  using assms by (simp add: for_lines_append split: sum.splits)

lemma sse_line_malformed: "sse_malformed env l \<Longrightarrow> sse_line env l v = Inr v"
  by (simp add: sse_malformed_def sse_line_def Let_def)

lemma json_line_malformed: "json_malformed env l \<Longrightarrow> json_line env l v = Inr v"
  by (simp add: json_malformed_def json_line_def Let_def)

section \<open>Malformed lines are skipped\<close>

text \<open>
  C6. In the SSE parser and in the NDJSON parser a complete line whose payload
  \<open>json.loads\<close> rejects raises nothing and leaves no trace: however the stream is cut
  into chunks, its result is the result of the same stream without that line, so every
  other line is parsed and extracted as before. In particular a malformed line followed
  by a valid line whose object yields non-empty bytes gives exactly those bytes.
\<close>

theorem malformed_line_skipped:
  "(sse_malformed env bad \<and> (a = [] \<or> last a = 10)
      \<and> concat chunks' = a @ bad @ 10 # b \<and> concat chunks = a @ b
      \<longrightarrow> parse_sse_stream env chunks' = parse_sse_stream env chunks)
   \<and> (json_malformed env bad \<and> (a = [] \<or> last a = 10)
      \<and> concat chunks' = a @ bad @ 10 # b \<and> concat chunks = a @ b
      \<longrightarrow> parse_json_stream env chunks' = parse_json_stream env chunks)
   \<and> (sse_malformed env bad \<and> 10 \<notin> set good \<and> starts_with (lit ''data:'') (strip good)
      \<and> strip (drop 5 (strip good)) \<noteq> lit ''[DONE]''
      \<and> json_loads env (strip (drop 5 (strip good))) = Some d
      \<and> extract_video_from_json env d = Inr (Some v) \<and> v \<noteq> []
      \<longrightarrow> parse_sse_stream env [bad @ 10 # good @ [10]] = Inr v)
   \<and> (json_malformed env bad \<and> 10 \<notin> set good \<and> strip good \<noteq> []
      \<and> json_loads env (strip good) = Some d
      \<and> extract_video_from_json env d = Inr (Some v) \<and> v \<noteq> []
      \<longrightarrow> parse_json_stream env [bad @ 10 # good @ [10]] = Inr v)"
proof (intro conjI impI)
  assume h: "sse_malformed env bad \<and> (a = [] \<or> last a = 10)
      \<and> concat chunks' = a @ bad @ 10 # b \<and> concat chunks = a @ b"
  then have nl: "10 \<notin> set bad" by (simp add: sse_malformed_def)
  from h have bd: "a = [] \<or> last a = 10" by simp
  have "for_lines (sse_line env) (butlast (split_nl (concat chunks'))) []
      = for_lines (sse_line env) (butlast (split_nl (concat chunks))) []"
    using h complete_lines_insert [OF bd nl, of b]
      for_lines_skip [of "sse_line env" bad, OF sse_line_malformed]
    by simp
  then show "parse_sse_stream env chunks' = parse_sse_stream env chunks"
    by (simp add: parse_sse_stream_lines)
next
  assume h: "json_malformed env bad \<and> (a = [] \<or> last a = 10)
      \<and> concat chunks' = a @ bad @ 10 # b \<and> concat chunks = a @ b"
  then have nl: "10 \<notin> set bad" by (simp add: json_malformed_def)
  from h have bd: "a = [] \<or> last a = 10" by simp
  have "for_lines (json_line env) (butlast (split_nl (concat chunks'))) []
      = for_lines (json_line env) (butlast (split_nl (concat chunks))) []"
    using h complete_lines_insert [OF bd nl, of b]
      for_lines_skip [of "json_line env" bad, OF json_line_malformed]
    by simp
  then show "parse_json_stream env chunks' = parse_json_stream env chunks"
    by (simp add: parse_json_stream_lines)
next
  assume h: "sse_malformed env bad \<and> 10 \<notin> set good \<and> starts_with (lit ''data:'') (strip good)
      \<and> strip (drop 5 (strip good)) \<noteq> lit ''[DONE]''
      \<and> json_loads env (strip (drop 5 (strip good))) = Some d
      \<and> extract_video_from_json env d = Inr (Some v) \<and> v \<noteq> []"
  then have "split_nl (bad @ 10 # good @ [10]) = [bad, good, []]"
    by (simp add: split_nl_line sse_malformed_def)
  moreover have "sse_line env good [] = Inr [v]"
    using h by (simp add: sse_line_def Let_def)
  ultimately show "parse_sse_stream env [bad @ 10 # good @ [10]] = Inr v"
    using h by (simp add: parse_sse_stream_lines sse_line_malformed)
next
  assume h: "json_malformed env bad \<and> 10 \<notin> set good \<and> strip good \<noteq> []
      \<and> json_loads env (strip good) = Some d
      \<and> extract_video_from_json env d = Inr (Some v) \<and> v \<noteq> []"
  then have "split_nl (bad @ 10 # good @ [10]) = [bad, good, []]"
    by (simp add: split_nl_line json_malformed_def)
  moreover have "json_line env good [] = Inr [v]"
    using h by (simp add: json_line_def Let_def)
  ultimately show "parse_json_stream env [bad @ 10 # good @ [10]] = Inr v"
    using h by (simp add: parse_json_stream_lines json_line_malformed)
qed

text \<open>
  The examples of the specification: \<open>not json\<close> before \<open>{"data":"b2s="}\<close> in an NDJSON
  stream (here cut into two chunks inside the malformed line), and \<open>data: not-json\<close>
  before a chat-completion event and the \<open>[DONE]\<close> sentinel in an SSE stream.
\<close>

theorem malformed_line_skipped_witness:
  "json_malformed sample_env (lit ''not json'')
   \<and> parse_json_stream sample_env
        [lit ''not js'', lit ''on'' @ 10 # lit ''{\"data\":\"b2s=\"}'' @ [10]] = Inr (blit ''ok'')
   \<and> parse_json_stream sample_env [lit ''{\"data\":\"b2s=\"}'' @ [10]] = Inr (blit ''ok'')
   \<and> sse_malformed sample_env (lit ''data: not-json'')
   \<and> parse_sse_stream sample_env
        [lit ''data: not-json'' @ 10
           # lit ''data: {\"choices\":[{\"delta\":{\"video\":\"aGk=\"}}]}'' @ [10]]
       = Inr (blit ''hi'')
   \<and> parse_sse_stream sample_env
        [lit ''data: {\"choices\":[{\"delta\":{\"video\":\"aGk=\"}}]}'' @ [10]]
       = Inr (blit ''hi'')"
  using malformed_line_skipped [where env = sample_env and bad = "lit ''not json''" and a = "[]"
      and chunks' = "[lit ''not js'', lit ''on'' @ 10 # lit ''{\"data\":\"b2s=\"}'' @ [10]]"
      and b = "lit ''{\"data\":\"b2s=\"}'' @ [10]"
      and chunks = "[lit ''{\"data\":\"b2s=\"}'' @ [10]]"
      and good = "lit ''{\"data\":\"b2s=\"}''"
      and d = "VDict [(lit ''data'', VStr (lit ''b2s=''))]"
      and v = "blit ''ok''"]
    malformed_line_skipped [where env = sample_env and bad = "lit ''data: not-json''"
      and a = "[]"
      and chunks' = "[lit ''data: not-json'' @ 10
           # lit ''data: {\"choices\":[{\"delta\":{\"video\":\"aGk=\"}}]}'' @ [10]]"
      and b = "lit ''data: {\"choices\":[{\"delta\":{\"video\":\"aGk=\"}}]}'' @ [10]"
      and chunks = "[lit ''data: {\"choices\":[{\"delta\":{\"video\":\"aGk=\"}}]}'' @ [10]]"
      and good = "lit ''data: {\"choices\":[{\"delta\":{\"video\":\"aGk=\"}}]}''"
      and d = "VDict [(lit ''choices'',
                VList [VDict [(lit ''delta'', VDict [(lit ''video'', VStr (lit ''aGk=''))])]])]"
      and v = "blit ''hi''"]
  by (simp add: evals sse_malformed_def json_malformed_def)

section \<open>The residual buffer\<close>

text \<open>
  C9. Neither text parser looks at its buffer once the chunks are exhausted: text that
  follows the last newline of the stream changes nothing, and a stream without any
  newline, such as a single \<open>data:\<close> event with no trailing newline, extracts nothing
  and raises \<open>StreamingError\<close>.
\<close>

theorem residual_buffer_dropped:
  "(10 \<notin> set tail \<and> concat chunks' = concat chunks @ tail \<longrightarrow>
      parse_sse_stream env chunks' = parse_sse_stream env chunks
      \<and> parse_json_stream env chunks' = parse_json_stream env chunks)
   \<and> (10 \<notin> set (concat chunks) \<longrightarrow>
      parse_sse_stream env chunks = Inl (StreamingError ''No video data found in SSE stream'')
      \<and> parse_json_stream env chunks
          = Inl (StreamingError ''No video data found in JSON stream''))"
  by (simp add: parse_sse_stream_lines parse_json_stream_lines complete_lines_tail
      split_nl_no_newline)

text \<open>The same event is extracted when a newline ends it and lost when none does.\<close>

theorem residual_buffer_dropped_witness:
  "parse_sse_stream sample_env
      [lit ''data: {\"choices\":[{\"delta\":{\"video\":\"aGk=\"}}]}'']
     = Inl (StreamingError ''No video data found in SSE stream'')
   \<and> parse_sse_stream sample_env
      [lit ''data: {\"choices\":[{\"delta\":{\"video\":\"aGk=\"}}]}'' @ [10]] = Inr (blit ''hi'')
   \<and> parse_json_stream sample_env [lit ''{\"data\":\"b2s=\"}'']
     = Inl (StreamingError ''No video data found in JSON stream'')
   \<and> parse_json_stream sample_env [lit ''{\"data\":\"b2s=\"}'' @ [10]] = Inr (blit ''ok'')"
  using residual_buffer_dropped [where env = sample_env
      and tail = "lit ''data: {\"choices\":[{\"delta\":{\"video\":\"aGk=\"}}]}''"
      and chunks' = "[lit ''data: {\"choices\":[{\"delta\":{\"video\":\"aGk=\"}}]}'']"
      and chunks = "[]"]
    residual_buffer_dropped [where env = sample_env
      and tail = "lit ''{\"data\":\"b2s=\"}''"
      and chunks' = "[lit ''{\"data\":\"b2s=\"}'']" and chunks = "[]"]
  by (simp add: evals)

section \<open>The extractor against its specification\<close>

text \<open>
  A URL that \<open>extract_url_from_html\<close> returns is never empty, so the test \<open>if url:\<close>
  always succeeds on it. On dicts the two loops compute \<open>decision\<close>, and on a
  well-formed event the extractor returns the first decision among the candidates.
\<close>

lemma quoted_src_nonempty: "quoted_src t = Some u \<Longrightarrow> u \<noteq> []"
  by (auto simp: quoted_src_def Let_def split: if_splits list.splits)

lemma backtrack_nonempty: "backtrack r k = Some u \<Longrightarrow> u \<noteq> []"
  by (induction k) (auto split: option.splits dest: quoted_src_nonempty)

lemma match_at_nonempty: "match_at t = Some u \<Longrightarrow> u \<noteq> []"
  by (auto simp: match_at_def Let_def split: if_splits dest: backtrack_nonempty)

lemma video_src_search_nonempty: "video_src_search t = Some u \<Longrightarrow> u \<noteq> []"
  by (induction t) (auto split: option.splits dest: match_at_nonempty)

lemma extract_url_nonempty: "extract_url_from_html v = Some u \<Longrightarrow> u \<noteq> []"
  by (cases v) (auto simp: lit_def split: option.splits if_splits dest: video_src_search_nonempty)

lemma py_in_dict: "py_in k (VDict kvs) = Inr (map_of kvs k \<noteq> None)"
  by (simp add: map_of_eq_None_iff)

lemma py_getitem_dict: "map_of kvs k = Some v \<Longrightarrow> py_getitem (VDict kvs) k = Inr v"
  by simp

lemma url_loop_dict:
  "url_loop env (VDict kvs) fs =
     (case first_url kvs fs of
        Some u \<Rightarrow> Returned (download_video_from_url env u)
      | None \<Rightarrow> Fallthrough)"
proof (induction fs)
  case Nil
  show ?case by simp
next
  case (Cons f fs)
  show ?case
    using Cons.IH
    by (auto simp: py_in_dict simp del: py_in.simps split: option.splits
        dest: extract_url_nonempty)
qed

lemma data_loop_dict:
  "data_loop (VDict kvs) fs =
     (case first_data kvs fs of Some v \<Rightarrow> Returned (decode_video_data v) | None \<Rightarrow> Fallthrough)"
proof (induction fs)
  case Nil
  show ?case by simp
next
  case (Cons f fs)
  show ?case
    using Cons.IH
    by (auto simp: py_in_dict simp del: py_in.simps split: option.splits)
qed

lemma search_fields_dict:
  "search_fields env (VDict kvs) =
     (case decision env kvs of Some r \<Rightarrow> Returned r | None \<Rightarrow> Fallthrough)"
  by (simp add: search_fields_def decision_def url_loop_dict data_loop_dict split: option.splits)

lemma first_decided_append:
  "first_decided (xs @ ys) =
     (case first_decided xs of None \<Rightarrow> first_decided ys | Some r \<Rightarrow> Some r)"
  by (induction xs rule: first_decided.induct) simp_all

lemma search_fields_outcome: "search_fields env (VDict kvs) = to_outcome (decision env kvs)"
  by (simp add: search_fields_dict to_outcome_def)

lemma search_sub_dict:
  "search_sub env (VDict ckvs) key =
     (case map_of ckvs key of None \<Rightarrow> Fallthrough | Some sub \<Rightarrow> search_fields env sub)"
  by (simp add: search_sub_def py_in_dict del: py_in.simps split: option.splits)

lemma search_sub_candidates:
  "sub_object ckvs key = Some subs \<Longrightarrow>
   search_sub env (VDict ckvs) key = to_outcome (first_decided (map (decision env) subs))"
  by (auto simp: sub_object_def search_sub_dict search_fields_outcome to_outcome_def
      split: option.splits pyval.splits)

lemma to_outcome_case:
  "(case to_outcome a of Fallthrough \<Rightarrow> to_outcome b | r \<Rightarrow> r)
     = to_outcome (case a of None \<Rightarrow> b | Some r \<Rightarrow> Some r)"
  by (simp add: to_outcome_def split: option.splits)

lemma entry_search_candidates:
  assumes "entry_candidates e = Some cs"
  shows "(case search_sub env e (lit ''delta'') of
            Fallthrough \<Rightarrow> search_sub env e (lit ''message'')
          | r \<Rightarrow> r)
         = to_outcome (first_decided (map (decision env) cs))"
proof -
  from assms obtain ckvs a b where e: "e = VDict ckvs"
    and a: "sub_object ckvs (lit ''delta'') = Some a"
    and b: "sub_object ckvs (lit ''message'') = Some b"
    and cs: "cs = a @ b"
    by (cases e) (auto split: option.splits)
  show ?thesis
    unfolding e cs search_sub_candidates [OF a] search_sub_candidates [OF b]
    by (simp add: to_outcome_case first_decided_append)
qed

lemma choices_loop_candidates:
  "those (map entry_candidates entries) = Some css \<Longrightarrow>
   choices_loop env entries = to_outcome (first_decided (map (decision env) (concat css)))"
proof (induction entries arbitrary: css)
  case Nil
  then show ?case by (simp add: to_outcome_def)
next
  case (Cons e entries)
  from Cons.prems obtain cs rest where e: "entry_candidates e = Some cs"
    and rest: "those (map entry_candidates entries) = Some rest"
    and css: "css = cs # rest"
    by (auto split: option.splits)
  have "choices_loop env (e # entries) =
      (case (case search_sub env e (lit ''delta'') of
               Fallthrough \<Rightarrow> search_sub env e (lit ''message'')
             | r \<Rightarrow> r) of
         Fallthrough \<Rightarrow> choices_loop env entries
       | r \<Rightarrow> r)"
    by (simp split: outcome.splits)
  then show ?case
    unfolding css entry_search_candidates [OF e] Cons.IH [OF rest]
    by (simp add: to_outcome_case first_decided_append)
qed

lemma top_level_dict:
  "top_level env (VDict kvs) = Inr (first_decision [decision env kvs])"
  by (cases "decision env kvs")
     (simp_all add: top_level_def search_fields_outcome to_outcome_def first_decision_def)

lemma extract_candidates:
  assumes "candidates kvs = Some cs"
  shows "extract_video_from_json env (VDict kvs) = Inr (first_decision (map (decision env) cs))"
proof (cases "map_of kvs (lit ''choices'')")
  case None
  with assms have "cs = [kvs]" by (simp add: candidates_def)
  with None show ?thesis
    by (simp add: extract_video_from_json_def search_choices_def py_in_dict top_level_dict
        del: py_in.simps)
next
  case (Some c)
  with assms obtain entries css where c: "c = VList entries"
    and css: "those (map entry_candidates entries) = Some css"
    and cs: "cs = concat css @ [kvs]"
    by (cases c) (auto simp: candidates_def)
  have "search_choices env (VDict kvs) = choices_loop env entries"
    using Some c by (simp add: search_choices_def py_in_dict del: py_in.simps)
  then show ?thesis
    unfolding cs
    by (cases "first_decided (map (decision env) (concat css))"; cases "decision env kvs")
       (simp_all add: extract_video_from_json_def choices_loop_candidates [OF css]
          top_level_def search_fields_outcome to_outcome_def first_decision_def
          first_decided_append)
qed

lemma absent_first_url: "list_all (\<lambda>f. map_of d f = None) fs \<Longrightarrow> first_url d fs = None"
  by (induction fs) simp_all

lemma absent_first_data: "list_all (\<lambda>f. map_of d f = None) fs \<Longrightarrow> first_data d fs = None"
  by (induction fs) simp_all

lemma barren_sub_falls_through:
  "barren_sub ckvs key \<Longrightarrow> search_sub env (VDict ckvs) key = Fallthrough"
  by (auto simp: barren_sub_def search_sub_dict search_fields_outcome to_outcome_def
      decision_def absent_first_url absent_first_data split: option.splits pyval.splits)

lemma barren_choices_fall_through:
  "list_all barren_choice entries \<Longrightarrow> choices_loop env entries = Fallthrough"
proof (induction entries)
  case Nil
  show ?case by simp
next
  case (Cons e entries)
  then obtain ckvs where "e = VDict ckvs" "barren_sub ckvs (lit ''delta'')"
      "barren_sub ckvs (lit ''message'')"
    by (cases e) auto
  with Cons show ?case by (simp add: barren_sub_falls_through)
qed

text \<open>
  The loops on values that are not dicts, and with them the extractor on every event:
  its result is settled by the first location that does not pass.
\<close>

lemma url_loop_str:
  "url_loop env (VStr s) fs =
     (if list_ex (\<lambda>f. contains f s) fs then Raised TypeError else Fallthrough)"
  by (induction fs) simp_all

lemma data_loop_str:
  "data_loop (VStr s) fs =
     (if list_ex (\<lambda>f. contains f s \<and> f \<noteq> lit ''content'') fs then Raised TypeError
      else Fallthrough)"
  by (induction fs) simp_all

lemma url_loop_list:
  "url_loop env (VList xs) fs =
     (if list_ex (\<lambda>f. VStr f \<in> set xs) fs then Raised TypeError else Fallthrough)"
  by (induction fs) simp_all

lemma data_loop_list:
  "data_loop (VList xs) fs =
     (if list_ex (\<lambda>f. VStr f \<in> set xs \<and> f \<noteq> lit ''content'') fs then Raised TypeError
      else Fallthrough)"
  by (induction fs) simp_all

lemma fields_ex:
  "(list_ex P url_fields \<or> list_ex (\<lambda>f. P f \<and> f \<noteq> lit ''content'') possible_fields)
     = list_ex P (url_fields @ possible_fields)"
proof -
  have "lit ''content'' \<in> set url_fields"
    by (simp add: url_fields_def)
  then show ?thesis
    unfolding list_ex_iff by auto
qed

lemma search_fields_location: "search_fields env v = location_outcome env v"
proof (cases v)
  case (VDict kvs)
  then show ?thesis by (simp add: search_fields_outcome)
next
  case (VStr s)
  show ?thesis
    unfolding VStr location_outcome.simps fields_ex [symmetric]
    by (simp add: search_fields_def url_loop_str data_loop_str)
next
  case (VList xs)
  show ?thesis
    unfolding VList location_outcome.simps fields_ex [symmetric]
    by (simp add: search_fields_def url_loop_list data_loop_list)
qed (simp_all add: search_fields_def url_fields_def)

lemma search_sub_location: "search_sub env e key = sub_outcome env e key"
  by (cases e)
     (simp_all add: search_sub_def search_fields_location py_in_dict del: py_in.simps(1)
        split: option.splits)

lemma first_outcome_append:
  "first_outcome (xs @ ys) =
     (case first_outcome xs of Fallthrough \<Rightarrow> first_outcome ys | r \<Rightarrow> r)"
  by (induction xs rule: first_outcome.induct) simp_all

lemma choices_loop_locations:
  "choices_loop env entries = first_outcome (concat (map (entry_outcomes env) entries))"
proof (induction entries)
  case Nil
  show ?case by simp
next
  case (Cons e entries)
  then show ?case
    by (simp add: search_sub_location entry_outcomes_def first_outcome_append
        split: outcome.splits)
qed

lemma search_choices_locations:
  "search_choices env (VDict kvs) =
     first_outcome
      (case map_of kvs (lit ''choices'') of
         None \<Rightarrow> []
       | Some choices \<Rightarrow>
          (case py_iter choices of
             Inl e \<Rightarrow> [Raised e]
           | Inr entries \<Rightarrow> concat (map (entry_outcomes env) entries)))"
  by (simp add: search_choices_def py_in_dict choices_loop_locations del: py_in.simps(1)
      split: option.splits sum.splits)

lemma extract_locations:
  "extract_video_from_json env (VDict kvs) =
     (case first_outcome (locations env kvs) of
        Raised e \<Rightarrow> Inl e
      | Returned r \<Rightarrow> Inr r
      | Fallthrough \<Rightarrow> Inr None)"
proof -
  define before where "before =
     (case map_of kvs (lit ''choices'') of
        None \<Rightarrow> []
      | Some choices \<Rightarrow>
         (case py_iter choices of
            Inl e \<Rightarrow> [Raised e]
          | Inr entries \<Rightarrow> concat (map (entry_outcomes env) entries)))"
  have c: "search_choices env (VDict kvs) = first_outcome before"
    unfolding before_def by (rule search_choices_locations)
  have l: "locations env kvs = before @ [to_outcome (decision env kvs)]"
    unfolding before_def by (simp add: locations_def)
  have t: "top_level env (VDict kvs) =
     (case to_outcome (decision env kvs) of
        Raised e \<Rightarrow> Inl e
      | Returned r \<Rightarrow> Inr r
      | Fallthrough \<Rightarrow> Inr None)"
    by (simp add: top_level_def search_fields_outcome)
  show ?thesis
    unfolding extract_video_from_json_def c l t first_outcome_append
    by (cases "first_outcome before"; cases "to_outcome (decision env kvs)") simp_all
qed

lemma undecided_prefix:
  "list_all (\<lambda>c. decision env c = None) pre \<Longrightarrow> first_decided (map (decision env) pre) = None"
  by (induction pre) simp_all

section \<open>Top-level search after barren choices\<close>

text \<open>
  C10. When an object has a \<open>choices\<close> list and no entry's \<open>delta\<close> or \<open>message\<close>
  sub-object holds any URL field or data field, the extractor goes on to the top-level
  object: its result is that of the two top-level loops, the URL fields first and then
  the data fields.
\<close>

theorem top_level_after_barren_choices:
  "map_of kvs (lit ''choices'') = Some (VList entries) \<and> list_all barren_choice entries \<longrightarrow>
     extract_video_from_json env (VDict kvs) = top_level env (VDict kvs)
     \<and> extract_video_from_json env (VDict kvs) = Inr (first_decision [decision env kvs])"
proof (intro impI)
  assume h: "map_of kvs (lit ''choices'') = Some (VList entries) \<and> list_all barren_choice entries"
  then have "search_choices env (VDict kvs) = Fallthrough"
    by (simp add: search_choices_def py_in_dict barren_choices_fall_through del: py_in.simps)
  then show "extract_video_from_json env (VDict kvs) = top_level env (VDict kvs)
     \<and> extract_video_from_json env (VDict kvs) = Inr (first_decision [decision env kvs])"
    by (simp add: extract_video_from_json_def top_level_dict)
qed

text \<open>
  A chat-completion event whose only entry carries a role: the inline \<open>video\<close> of the
  top level is decoded, and a top-level \<open>url\<close> is dereferenced before it.
\<close>

theorem top_level_after_barren_choices_witness:
  "list_all barren_choice [VDict [(lit ''delta'', VDict [(lit ''role'', VStr (lit ''assistant''))])]]
   \<and> extract_video_from_json sample_env
        (VDict [(lit ''choices'',
                 VList [VDict [(lit ''delta'', VDict [(lit ''role'', VStr (lit ''assistant''))])]]),
                (lit ''video'', VStr (lit ''aGk=''))])
       = Inr (Some (blit ''hi''))"
  using top_level_after_barren_choices [where env = sample_env
      and kvs = "[(lit ''choices'',
                 VList [VDict [(lit ''delta'', VDict [(lit ''role'', VStr (lit ''assistant''))])]]),
                (lit ''video'', VStr (lit ''aGk=''))]"
      and entries = "[VDict [(lit ''delta'', VDict [(lit ''role'', VStr (lit ''assistant''))])]]"]
  by (simp add: evals barren_sub_def decision_def first_decision_def)

section \<open>URL fields before data fields\<close>

text \<open>
  C5. Within any candidate object the URL fields \<open>url\<close>, \<open>video_url\<close>, \<open>download_url\<close>,
  \<open>file_url\<close>, \<open>uri\<close>, \<open>content\<close> are searched, in that order, before the data fields:
  the search of a dict returns the dereference of the first URL field whose value yields
  a URL and looks at the data fields only when there is none. So for a candidate object
  whose \<open>url\<close> field yields a URL that dereferences to a body, the search of that object
  returns the body, whatever its \<open>video\<close> field holds, and so does the extractor: for
  the top-level object when it has no \<open>choices\<close>, and for any candidate of a well-formed
  event before which no candidate decides.
\<close>

theorem url_before_data:
  "url_fields = [lit ''url'', lit ''video_url'', lit ''download_url'', lit ''file_url'',
      lit ''uri'', lit ''content'']
   \<and> possible_fields = [lit ''video'', lit ''data'', lit ''content'', lit ''file'',
      lit ''video_data'', lit ''video_content'', lit ''binary'', lit ''base64'']
   \<and> search_fields env (VDict kvs) =
       (case first_url kvs url_fields of
          Some u \<Rightarrow> Returned (download_video_from_url env u)
        | None \<Rightarrow>
           (case first_data kvs possible_fields of
              Some v \<Rightarrow> Returned (decode_video_data v)
            | None \<Rightarrow> Fallthrough))
   \<and> (map_of kvs (lit ''url'') = Some uv \<and> extract_url_from_html uv = Some u
        \<and> download_video_from_url env u = Some body \<longrightarrow>
        search_fields env (VDict kvs) = Returned (Some body)
        \<and> (map_of kvs (lit ''choices'') = None \<longrightarrow>
             extract_video_from_json env (VDict kvs) = Inr (Some body))
        \<and> (candidates event = Some (pre @ kvs # post)
             \<and> list_all (\<lambda>c. decision env c = None) pre \<longrightarrow>
             extract_video_from_json env (VDict event) = Inr (Some body)))"
proof -
  have loops: "search_fields env (VDict kvs) =
       (case first_url kvs url_fields of
          Some u \<Rightarrow> Returned (download_video_from_url env u)
        | None \<Rightarrow>
           (case first_data kvs possible_fields of
              Some v \<Rightarrow> Returned (decode_video_data v)
            | None \<Rightarrow> Fallthrough))"
    by (simp add: search_fields_dict decision_def split: option.splits)
  have live: "search_fields env (VDict kvs) = Returned (Some body)
        \<and> (map_of kvs (lit ''choices'') = None \<longrightarrow>
             extract_video_from_json env (VDict kvs) = Inr (Some body))
        \<and> (candidates event = Some (pre @ kvs # post)
             \<and> list_all (\<lambda>c. decision env c = None) pre \<longrightarrow>
             extract_video_from_json env (VDict event) = Inr (Some body))"
    if h: "map_of kvs (lit ''url'') = Some uv \<and> extract_url_from_html uv = Some u
        \<and> download_video_from_url env u = Some body"
  proof -
    from h have "first_url kvs url_fields = Some u"
      by (simp add: url_fields_def)
    with h have d: "decision env kvs = Some (Some body)"
      by (simp add: decision_def)
    then have s: "search_fields env (VDict kvs) = Returned (Some body)"
      by (simp add: search_fields_outcome to_outcome_def)
    have t: "extract_video_from_json env (VDict kvs) = Inr (Some body)"
      if "map_of kvs (lit ''choices'') = None"
      using that s
      by (simp add: extract_video_from_json_def search_choices_def py_in_dict top_level_def
          del: py_in.simps)
    have n: "extract_video_from_json env (VDict event) = Inr (Some body)"
      if "candidates event = Some (pre @ kvs # post)
          \<and> list_all (\<lambda>c. decision env c = None) pre"
      using that d
      by (simp add: extract_candidates first_decision_def first_decided_append undecided_prefix)
    from s t n show ?thesis by blast
  qed
  show ?thesis
    using loops live by (simp add: url_fields_def possible_fields_def)
qed

text \<open>
  An object with a live \<open>url\<close> and an inline \<open>video\<close> that decodes to \<open>ok\<close>: at the top
  level, and as the \<open>message\<close> of an entry whose \<open>delta\<close> decides nothing.
\<close>

theorem url_before_data_witness:
  "extract_url_from_html (VStr (lit ''http://cdn.example/v.mp4''))
     = Some (lit ''http://cdn.example/v.mp4'')
   \<and> download_video_from_url sample_env (lit ''http://cdn.example/v.mp4'') = Some (blit ''VIDEO'')
   \<and> decode_video_data (VStr (lit ''b2s='')) = Some (blit ''ok'')
   \<and> extract_video_from_json sample_env
        (VDict [(lit ''url'', VStr (lit ''http://cdn.example/v.mp4'')),
                (lit ''video'', VStr (lit ''b2s=''))])
       = Inr (Some (blit ''VIDEO''))
   \<and> extract_video_from_json sample_env (VDict nested_url_event) = Inr (Some (blit ''VIDEO''))"
proof -
  have u: "extract_url_from_html (VStr (lit ''http://cdn.example/v.mp4''))
     = Some (lit ''http://cdn.example/v.mp4'')"
    by (simp add: evals)
  have g: "download_video_from_url sample_env (lit ''http://cdn.example/v.mp4'')
     = Some (blit ''VIDEO'')"
    by (simp add: evals)
  have v: "decode_video_data (VStr (lit ''b2s='')) = Some (blit ''ok'')"
    by (simp add: evals)
  have c: "candidates nested_url_event
     = Some ([[(lit ''role'', VStr (lit ''assistant''))]]
         @ [(lit ''url'', VStr (lit ''http://cdn.example/v.mp4'')),
            (lit ''video'', VStr (lit ''b2s=''))]
         # [nested_url_event])"
    by (simp add: candidates_def sub_object_def nested_url_event_def lit_def)
  have p: "list_all (\<lambda>c. decision sample_env c = None) [[(lit ''role'', VStr (lit ''assistant''))]]"
    by (simp add: decision_def url_fields_def possible_fields_def lit_def)
  have k: "map_of [(lit ''url'', VStr (lit ''http://cdn.example/v.mp4'')),
                (lit ''video'', VStr (lit ''b2s=''))] (lit ''url'')
        = Some (VStr (lit ''http://cdn.example/v.mp4''))
      \<and> map_of [(lit ''url'', VStr (lit ''http://cdn.example/v.mp4'')),
                (lit ''video'', VStr (lit ''b2s=''))] (lit ''choices'') = None"
    by (simp add: lit_def)
  show ?thesis
    using u g v c p k
      url_before_data [where env = sample_env
        and kvs = "[(lit ''url'', VStr (lit ''http://cdn.example/v.mp4'')),
                (lit ''video'', VStr (lit ''b2s=''))]"
        and uv = "VStr (lit ''http://cdn.example/v.mp4'')"
        and u = "lit ''http://cdn.example/v.mp4''" and body = "blit ''VIDEO''"
        and event = nested_url_event
        and pre = "[[(lit ''role'', VStr (lit ''assistant''))]]"
        and post = "[nested_url_event]"]
    by simp
qed

section \<open>The first decision is final\<close>

text \<open>
  C2, as stated, fails: the search does not go on after a field that is present and
  yields nothing. An inline \<open>video\<close> that is not text ends the search with \<open>None\<close>
  although the next data field decodes, and so does a \<open>url\<close> answered with status 404
  although an inline \<open>video\<close> stands beside it.
\<close>

theorem first_decision_final_counterexample:
  "extract_video_from_json sample_env
      (VDict [(lit ''video'', VNone), (lit ''data'', VStr (lit ''aGk=''))]) = Inr None
   \<and> decode_video_data (VStr (lit ''aGk='')) = Some (blit ''hi'')
   \<and> sample_http_get (lit ''http://cdn.example/gone.mp4'') = Response 404 (blit ''Not Found'')
   \<and> extract_video_from_json sample_env
      (VDict [(lit ''url'', VStr (lit ''http://cdn.example/gone.mp4'')),
              (lit ''video'', VStr (lit ''aGk=''))]) = Inr None"
  by (simp add: evals)

text \<open>
  C2, amended. For every JSON object the extractor visits the locations in order, the
  \<open>delta\<close> and then the \<open>message\<close> of each \<open>choices\<close> entry and then the top level, and
  the first location that does not pass settles the result. A location that is an object
  passes when none of its URL fields yields a URL and none of its data fields other than
  \<open>content\<close> is present; otherwise its first such URL field, or failing that its first
  such data field, is final: the result is the dereferenced or decoded bytes, or \<open>None\<close>
  when the dereference or the decoding fails, and no further field or location is tried.
  A \<open>choices\<close> value, an entry, a \<open>delta\<close> or a \<open>message\<close> that is not a list or an
  object of the expected kind passes or raises \<open>TypeError\<close>, which ends the search too.
  \<open>None\<close> is otherwise returned only when every location has passed. On a well-formed
  event (\<open>choices\<close>, if present, a list of objects whose \<open>delta\<close> and \<open>message\<close>, if
  present, are objects) nothing raises and the result is the first decision among the
  candidates.
\<close>

theorem first_decision_final:
  "extract_video_from_json env (VDict kvs) =
     (case first_outcome (locations env kvs) of
        Raised e \<Rightarrow> Inl e
      | Returned r \<Rightarrow> Inr r
      | Fallthrough \<Rightarrow> Inr None)
   \<and> (candidates kvs = Some cs \<longrightarrow>
        extract_video_from_json env (VDict kvs) = Inr (first_decision (map (decision env) cs)))"
  using extract_locations [of env kvs] extract_candidates [of kvs cs env] by blast

text \<open>
  In the sample event the first candidate decides nothing, the second decides, and the
  third, which would decode to \<open>hi\<close>, is never consulted. An entry with \<open>message: null\<close>
  raises \<open>TypeError\<close> although a live \<open>url\<close> stands at the top level, and an entry that
  is a plain string is passed over.
\<close>

theorem first_decision_final_witness:
  "candidates sample_event
     = Some [[(lit ''content'', VStr (lit ''rendering''))],
             [(lit ''content'', VStr video_tag)],
             sample_event]
   \<and> extract_video_from_json sample_env (VDict sample_event) = Inr (Some (blit ''VIDEO''))
   \<and> candidates null_message_event = None
   \<and> locations sample_env null_message_event
       = [Fallthrough, Raised TypeError, Returned (Some (blit ''VIDEO''))]
   \<and> extract_video_from_json sample_env (VDict null_message_event) = Inl TypeError
   \<and> extract_video_from_json sample_env
        (VDict [(lit ''choices'', VList [VStr (lit ''x'')]), (lit ''video'', VStr (lit ''aGk=''))])
       = Inr (Some (blit ''hi''))"
proof -
  have c: "candidates sample_event
     = Some [[(lit ''content'', VStr (lit ''rendering''))],
             [(lit ''content'', VStr video_tag)],
             sample_event]"
    by (simp add: candidates_def sub_object_def sample_event_def lit_def)
  have u: "extract_url_from_html (VStr video_tag) = Some (lit ''http://cdn.example/v.mp4'')"
    by (simp add: video_tag_def evals)
  have n: "extract_url_from_html (VStr (lit ''rendering'')) = None"
    by (simp add: evals)
  have d1: "decision sample_env [(lit ''content'', VStr (lit ''rendering''))] = None"
    using n by (simp add: decision_def url_fields_def possible_fields_def lit_def)
  have d2: "decision sample_env [(lit ''content'', VStr video_tag)] = Some (Some (blit ''VIDEO''))"
    using u by (simp add: decision_def url_fields_def possible_fields_def lit_def
        download_video_from_url_def sample_env_def sample_http_get_def)
  have w: "extract_video_from_json sample_env (VDict sample_event) = Inr (Some (blit ''VIDEO''))"
    using c first_decision_final [where env = sample_env and kvs = sample_event
        and cs = "[[(lit ''content'', VStr (lit ''rendering''))],
             [(lit ''content'', VStr video_tag)],
             sample_event]", THEN conjunct2]
    by (simp add: d1 d2 first_decision_def)
  have m: "candidates null_message_event = None"
    by (simp add: candidates_def sub_object_def null_message_event_def lit_def)
  have g: "extract_url_from_html (VStr (lit ''http://cdn.example/v.mp4''))
     = Some (lit ''http://cdn.example/v.mp4'')"
    by (simp add: evals)
  have d3: "decision sample_env null_message_event = Some (Some (blit ''VIDEO''))"
    using g by (simp add: decision_def url_fields_def null_message_event_def lit_def
        download_video_from_url_def sample_env_def sample_http_get_def)
  have eo: "entry_outcomes sample_env (VDict [(lit ''delta'', VDict []), (lit ''message'', VNone)])
       = [Fallthrough, Raised TypeError]"
    by (simp add: entry_outcomes_def to_outcome_def decision_def url_fields_def
        possible_fields_def lit_def)
  have ch: "map_of null_message_event (lit ''choices'')
       = Some (VList [VDict [(lit ''delta'', VDict []), (lit ''message'', VNone)]])"
    by (simp add: null_message_event_def lit_def)
  have l: "locations sample_env null_message_event
       = [Fallthrough, Raised TypeError, Returned (Some (blit ''VIDEO''))]"
    by (simp add: locations_def ch eo d3 to_outcome_def)
  have r: "extract_video_from_json sample_env (VDict null_message_event) = Inl TypeError"
    using first_decision_final [where env = sample_env and kvs = null_message_event,
        THEN conjunct1]
    by (simp add: l)
  have x: "extract_video_from_json sample_env
        (VDict [(lit ''choices'', VList [VStr (lit ''x'')]), (lit ''video'', VStr (lit ''aGk=''))])
       = Inr (Some (blit ''hi''))"
    by (simp add: evals)
  from c w m l r x show ?thesis by simp
qed

section \<open>The auto-detect fallback\<close>

text \<open>
  When the first chunk is text that starts with \<open>data:\<close> and the SSE attempt extracts
  nothing, the fallback returns the first chunk and what the attempt left in the
  iterator.
\<close>

lemma utf8_ascii: "list_all (\<lambda>b. b < 128) bs \<Longrightarrow> utf8 bs = Some bs"
  by (induction bs) simp_all

lemma decode_utf8_ascii: "list_all (\<lambda>w. unat w < 128) b \<Longrightarrow> decode_utf8 b = Some (map unat b)"
  by (simp add: decode_utf8_def utf8_ascii list_all_iff)

lemma starts_with_append: "starts_with p (p @ w)"
  by (induction p) simp_all

lemma starts_with_other: "c \<noteq> d \<Longrightarrow> starts_with [c] (d # w) = False"
  by simp

lemma strip_keeps_prefix:
  assumes "p \<noteq> []" and "\<not> is_space (hd p)" and "\<not> is_space (last p)"
  shows "\<exists>w. strip (p @ u) = p @ w"
proof -
  have keep_front: "dropWhile is_space (p @ u) = p @ u"
    using assms(1,2) by (cases p) simp_all
  have keep_back: "dropWhile is_space (rev p) = rev p"
    using assms(1,3) by (cases "rev p") (simp_all add: last_rev [symmetric] hd_rev)
  have "\<exists>z. dropWhile is_space (rev u @ rev p) = z @ rev p"
    using keep_back by (simp add: dropWhile_append)
  then obtain z where "dropWhile is_space (rev u @ rev p) = z @ rev p" by blast
  then have "strip (p @ u) = p @ rev z"
    by (simp add: strip_def keep_front)
  then show ?thesis by blast
qed

lemma split_nl_lines:
  "10 \<notin> set l \<Longrightarrow> split_nl (concat (replicate n (l @ [10])) @ t) = replicate n l @ split_nl t"
proof (induction n)
  case 0
  show ?case by simp
next
  case (Suc n)
  then show ?case
    using split_nl_line [of l "concat (replicate n (l @ [10])) @ t"] by simp
qed

lemma for_lines_noop:
  "(\<And>l v. l \<in> set ls \<Longrightarrow> body l v = Inr v) \<Longrightarrow> for_lines body ls v = Inr v"
  by (induction ls arbitrary: v) simp_all

lemma fallback_after_empty_sse_attempt:
  assumes "\<not> is_likely_video c" and "decode_utf8 c = Some t"
    and "\<exists>w. strip t = lit ''data:'' @ w"
    and "for_byte_chunks (unknown_sse_line env) t [] rest = (Inr [], it)"
  shows "parse_unknown_stream env (c # rest) = Inr (concat (c # it))"
proof -
  from assms(3) obtain w where w: "strip t = lit ''data:'' @ w" by blast
  have a: "starts_with (lit ''data:'') (strip t)"
    unfolding w by (rule starts_with_append)
  have b: "\<not> starts_with (lit ''{'') (strip t)"
    unfolding w by (simp add: lit_def)
  show ?thesis
    using assms(1,2,4) a b
    by (simp add: parse_unknown_stream_def text_attempt_def fall_back_def)
qed

lemma queued_event_text: "map unat queued_event = queued_line @ [10]"
  by (simp add: queued_event_def queued_line_def blit_def lit_def)

lemma queued_events_text:
  "map unat (concat (replicate n queued_event)) = concat (replicate n (queued_line @ [10]))"
  by (induction n) (simp_all add: queued_event_text)

lemma queued_events_ascii: "list_all (\<lambda>w. unat w < 128) (concat (replicate n queued_event))"
  by (induction n) (simp_all add: queued_event_def blit_def)

lemma queued_events_length: "length (concat (replicate n queued_event)) = n * 26"
  by (induction n) (simp_all add: queued_event_def blit_def)

lemma queued_line_no_newline: "10 \<notin> set queued_line"
  by (simp add: queued_line_def lit_def)

lemma queued_line_noop: "unknown_sse_line sample_env queued_line v = Inr v"
  by (simp add: queued_line_def evals)

lemma done_line_noop: "unknown_sse_line sample_env (lit ''data: [DONE]'') v = Inr v"
  by (simp add: evals)

lemma stalled_second_text: "decode_utf8 stalled_second = Some (lit ''ta: [DONE]'' @ [10])"
  by (simp add: stalled_second_def decode_utf8_def blit_def lit_def)

lemma stalled_attempt:
  "for_byte_chunks (unknown_sse_line sample_env)
      (concat (replicate n (queued_line @ [10])) @ lit ''da'') [] [stalled_second]
     = (Inr [], [])"
proof -
  have "split_nl ((concat (replicate n (queued_line @ [10])) @ lit ''da'') @ lit ''ta: [DONE]'' @ [10])
      = replicate n queued_line @ [lit ''data: [DONE]'', []]"
    using split_nl_lines [OF queued_line_no_newline, of n "lit ''data: [DONE]'' @ [10]"]
    by (simp add: lit_def)
  moreover have "for_lines (unknown_sse_line sample_env)
      (replicate n queued_line @ [lit ''data: [DONE]'']) [] = Inr []"
    by (rule for_lines_noop) (auto simp: queued_line_noop done_line_noop)
  ultimately show ?thesis
    by (simp add: stalled_second_text butlast_append)
qed

lemma stalled_general:
  "parse_unknown_stream sample_env
      [concat (replicate (Suc n) queued_event) @ blit ''da'', stalled_second]
     = Inr (concat (replicate (Suc n) queued_event) @ blit ''da'')"
proof -
  let ?c = "concat (replicate (Suc n) queued_event) @ blit ''da''"
  let ?t = "concat (replicate (Suc n) (queued_line @ [10])) @ lit ''da''"
  have v: "\<not> is_likely_video ?c"
    by (simp add: is_likely_video_def video_signatures_def queued_event_def blit_def)
  have "list_all (\<lambda>w. unat w < 128) ?c"
    using queued_events_ascii [of "Suc n"] by (simp add: blit_def)
  then have d: "decode_utf8 ?c = Some ?t"
    using queued_events_text [of "Suc n"] by (simp add: decode_utf8_ascii blit_def lit_def)
  have "?t = lit ''data:'' @ (lit '' {\"status\":\"queued\"}'' @ [10]
      @ concat (replicate n (queued_line @ [10])) @ lit ''da'')"
    by (simp add: queued_line_def lit_def)
  moreover have "\<exists>w. strip (lit ''data:'' @ u) = lit ''data:'' @ w" for u
    by (rule strip_keeps_prefix) (simp_all add: lit_def is_space_def)
  ultimately have s: "\<exists>w. strip ?t = lit ''data:'' @ w"
    by metis
  show ?thesis
    using fallback_after_empty_sse_attempt [OF v d s stalled_attempt] by simp
qed

text \<open>
  C1 at a concrete stream: the body of 315 status events and the \<open>[DONE]\<close> sentinel,
  in the two chunks \<open>iter_bytes\<close> delivers. The SSE attempt reads the second chunk from
  the iterator and extracts nothing; the fallback then finds the iterator empty and
  returns the first 8192 bytes alone, not the 8203 bytes of the stream.
\<close>

theorem unknown_fallback_first_chunk_only:
  "length stalled_first = 8192
   \<and> length stalled_second = 11
   \<and> parse_unknown_stream sample_env [stalled_first, stalled_second] = Inr stalled_first
   \<and> length (concat [stalled_first, stalled_second]) = 8203"
proof -
  have e: "(315::nat) = Suc 314" by simp
  have a: "length stalled_first = 8192"
    unfolding stalled_first_def by (simp add: queued_events_length blit_def)
  have b: "length stalled_second = 11"
    by (simp add: stalled_second_def blit_def)
  have "parse_unknown_stream sample_env [stalled_first, stalled_second] = Inr stalled_first"
    unfolding stalled_first_def e by (rule stalled_general)
  with a b show ?thesis by simp
qed

end
